theory Spec2Isabelle
  imports Complex_Main
begin

section \<open>The 2D viewer of AutoDraw: numbers\<close>

text \<open>
  The component under study is the canvas viewer \<^verbatim>\<open>ThreeDxfViewer\<close> with selection,
  move and delete. A JavaScript number is modelled as a real or one of the three special
  values \<^verbatim>\<open>NaN\<close>, \<^verbatim>\<open>-Infinity\<close> and \<^verbatim>\<open>Infinity\<close>, with the arithmetic of IEEE 754 on the
  special values: a non-zero number divided by zero is an infinity, \<open>0 / 0\<close>,
  \<open>\<infinity> - \<infinity>\<close>, \<open>\<infinity> / \<infinity>\<close> and \<open>0 * \<infinity>\<close> are \<^verbatim>\<open>NaN\<close>, and every comparison with \<^verbatim>\<open>NaN\<close> is false.
  The scale, the pan and the coordinates of the entities are such numbers: the effect
  that fits the view can set the scale to \<^verbatim>\<open>Infinity\<close> and the pan to \<^verbatim>\<open>NaN\<close>. Rounding and
  the sign of zero are not modelled: the finite numbers are exact reals, and a zero
  divisor counts as \<open>+0\<close>, which is what \<open>v - v\<close> evaluates to. The coordinates of a
  pointer event are finite and are reals.
\<close>

datatype jsnum = NaN | NegInf | Fin real | PosInf

fun jneg :: "jsnum \<Rightarrow> jsnum" where
  "jneg NaN = NaN"
| "jneg NegInf = PosInf"
| "jneg PosInf = NegInf"
| "jneg (Fin a) = Fin (- a)"

fun jadd :: "jsnum \<Rightarrow> jsnum \<Rightarrow> jsnum" where
  "jadd (Fin a) (Fin b) = Fin (a + b)"
| "jadd NaN _ = NaN"
| "jadd _ NaN = NaN"
| "jadd PosInf NegInf = NaN"
| "jadd NegInf PosInf = NaN"
| "jadd PosInf _ = PosInf"
| "jadd _ PosInf = PosInf"
| "jadd NegInf _ = NegInf"
| "jadd _ NegInf = NegInf"

definition jsub :: "jsnum \<Rightarrow> jsnum \<Rightarrow> jsnum" where
  "jsub a b = jadd a (jneg b)"

text \<open>The sign of a number that is not \<^verbatim>\<open>NaN\<close>: \<open>-1\<close>, \<open>0\<close> or \<open>1\<close>.\<close>

fun jsgn :: "jsnum \<Rightarrow> real" where
  "jsgn (Fin a) = sgn a"
| "jsgn PosInf = 1"
| "jsgn NegInf = - 1"
| "jsgn NaN = 0"

definition infOfSign :: "real \<Rightarrow> jsnum" where
  "infOfSign s = (if s = 0 then NaN else if 0 < s then PosInf else NegInf)"

fun jmul :: "jsnum \<Rightarrow> jsnum \<Rightarrow> jsnum" where
  "jmul (Fin a) (Fin b) = Fin (a * b)"
| "jmul NaN _ = NaN"
| "jmul _ NaN = NaN"
| "jmul a b = infOfSign (jsgn a * jsgn b)"

fun jdiv :: "jsnum \<Rightarrow> jsnum \<Rightarrow> jsnum" where
  "jdiv (Fin a) (Fin b) = (if b = 0 then infOfSign (sgn a) else Fin (a / b))"
| "jdiv NaN _ = NaN"
| "jdiv _ NaN = NaN"
| "jdiv (Fin a) _ = Fin 0"
| "jdiv a (Fin b) = infOfSign (jsgn a * (if b < 0 then - 1 else 1))"
| "jdiv _ _ = NaN"

fun jmin :: "jsnum \<Rightarrow> jsnum \<Rightarrow> jsnum" where
  "jmin (Fin a) (Fin b) = Fin (min a b)"
| "jmin NaN _ = NaN"
| "jmin _ NaN = NaN"
| "jmin NegInf _ = NegInf"
| "jmin _ NegInf = NegInf"
| "jmin PosInf b = b"
| "jmin a PosInf = a"

fun jmax :: "jsnum \<Rightarrow> jsnum \<Rightarrow> jsnum" where
  "jmax (Fin a) (Fin b) = Fin (max a b)"
| "jmax NaN _ = NaN"
| "jmax _ NaN = NaN"
| "jmax PosInf _ = PosInf"
| "jmax _ PosInf = PosInf"
| "jmax NegInf b = b"
| "jmax a NegInf = a"

text \<open>\<^verbatim>\<open>Math.min\<close> and \<^verbatim>\<open>Math.max\<close> of any number of arguments, and \<^verbatim>\<open>Math.sqrt\<close>.\<close>

definition Math_min :: "jsnum list \<Rightarrow> jsnum" where
  "Math_min vs = foldr jmin vs PosInf"

definition Math_max :: "jsnum list \<Rightarrow> jsnum" where
  "Math_max vs = foldr jmax vs NegInf"

fun Math_sqrt :: "jsnum \<Rightarrow> jsnum" where
  "Math_sqrt (Fin a) = (if a < 0 then NaN else Fin (sqrt a))"
| "Math_sqrt PosInf = PosInf"
| "Math_sqrt NegInf = NaN"
| "Math_sqrt NaN = NaN"

text \<open>The comparisons \<^verbatim>\<open><\<close>, \<^verbatim>\<open><=\<close>, \<^verbatim>\<open>>\<close> and \<^verbatim>\<open>>=\<close>.\<close>

fun jlt :: "jsnum \<Rightarrow> jsnum \<Rightarrow> bool" where
  "jlt (Fin a) (Fin b) = (a < b)"
| "jlt NaN _ = False"
| "jlt _ NaN = False"
| "jlt PosInf _ = False"
| "jlt _ NegInf = False"
| "jlt NegInf _ = True"
| "jlt _ PosInf = True"

fun jle :: "jsnum \<Rightarrow> jsnum \<Rightarrow> bool" where
  "jle (Fin a) (Fin b) = (a \<le> b)"
| "jle NaN _ = False"
| "jle _ NaN = False"
| "jle NegInf _ = True"
| "jle _ PosInf = True"
| "jle PosInf _ = False"
| "jle _ NegInf = False"

definition jgt :: "jsnum \<Rightarrow> jsnum \<Rightarrow> bool" where
  "jgt a b = jlt b a"

definition jge :: "jsnum \<Rightarrow> jsnum \<Rightarrow> bool" where
  "jge a b = jle b a"

text \<open>
  The expression \<^verbatim>\<open>v || 0\<close> on a number: the falsy numbers, \<open>0\<close> and \<^verbatim>\<open>NaN\<close>, are replaced
  by \<open>0\<close>.
\<close>

definition or0 :: "jsnum \<Rightarrow> jsnum" where
  "or0 v = (if v = NaN \<or> v = Fin 0 then Fin 0 else v)"

section \<open>Data model\<close>

text \<open>A point \<^verbatim>\<open>{x: number, y: number}\<close>, and one that holds the coordinates of an event.\<close>

record point =
  px :: jsnum
  py :: jsnum

record screen_point =
  sx :: real
  sy :: real

text \<open>
  The interface \<^verbatim>\<open>Entity\<close>. The optional fields are options; \<open>None\<close> is \<^verbatim>\<open>undefined\<close>.
  The type of the identifier is a parameter: an entity of the parsed drawing
  (\<^verbatim>\<open>dxf.entities\<close>, of type \<^verbatim>\<open>any\<close>) may lack its \<^verbatim>\<open>id\<close>, an entity of the viewer's
  state has one.
\<close>

record 'i entity_of =
  eid :: 'i
  etype :: string
  vertices :: "point list option"
  position :: "point option"
  etext :: "string option"
  selected :: "bool option"

type_synonym raw_entity = "string option entity_of"
type_synonym entity = "string entity_of"

text \<open>
  The reads \<^verbatim>\<open>entity.vertices[0]\<close> and \<^verbatim>\<open>entity.vertices[1]\<close> followed by \<^verbatim>\<open>.x\<close>: on an
  array with fewer than two elements the element is \<^verbatim>\<open>undefined\<close> and the property read
  throws a \<^verbatim>\<open>TypeError\<close>, which is the value \<open>None\<close> here.
\<close>

datatype error = TypeError

fun lineEnds :: "point list \<Rightarrow> (point \<times> point) option" where
  "lineEnds (a # b # rest) = Some (\<lparr>px = or0 (px a), py = or0 (py a)\<rparr>, \<lparr>px = or0 (px b), py = or0 (py b)\<rparr>)"
| "lineEnds _ = None"

section \<open>Coordinate transform\<close>

text \<open>
  \<^verbatim>\<open>drawLine\<close> strokes a path from the screen image of \<open>start\<close> to the screen image of
  \<open>end\<close>; the model returns the two arguments of \<^verbatim>\<open>moveTo\<close> and \<^verbatim>\<open>lineTo\<close>. The colour,
  the line width and the handles of a selected line do not enter the coordinates.
\<close>

definition drawLine :: "jsnum \<times> jsnum \<Rightarrow> jsnum \<times> jsnum \<Rightarrow> jsnum \<Rightarrow> jsnum \<Rightarrow> jsnum \<Rightarrow> point \<times> point" where
  "drawLine start end' scale' offsetX offsetY =
     (\<lparr>px = jadd (jmul (fst start) scale') offsetX,
       py = jadd (jmul (jneg (snd start)) scale') offsetY\<rparr>,
      \<lparr>px = jadd (jmul (fst end') scale') offsetX,
       py = jadd (jmul (jneg (snd end')) scale') offsetY\<rparr>)"

text \<open>\<^verbatim>\<open>screenToWorld\<close> closes over the state variables \<open>pan\<close> and \<open>scale\<close>.\<close>

definition screenToWorld :: "point \<Rightarrow> jsnum \<Rightarrow> jsnum \<Rightarrow> jsnum \<Rightarrow> point" where
  "screenToWorld pan' scale' x y =
     \<lparr>px = jdiv (jsub x (px pan')) scale', py = jneg (jdiv (jsub y (py pan')) scale')\<rparr>"

section \<open>Viewer state and events\<close>

datatype mode = Select | Move

record box =
  box_x :: real
  box_y :: real
  box_width :: real
  box_height :: real

text \<open>
  The \<^verbatim>\<open>useState\<close> variables of the component. \<open>dragStart\<close>, \<open>selectionStart\<close> and
  \<open>selectionBox\<close> only ever hold coordinates of pointer events.
\<close>

record state =
  scale :: jsnum
  pan :: point
  isDragging :: bool
  dragStart :: screen_point
  entities :: "entity list"
  selectedEntityIds :: "string list"
  isMovingSelection :: bool
  selectionStart :: "screen_point option"
  selectionBox :: "box option"
  mode :: mode
  isShiftPressed :: bool

text \<open>
  A mouse event with the fields the handlers read, and the origin of the canvas
  (\<^verbatim>\<open>getBoundingClientRect()\<close>) at the time of the event. The canvas is mounted: the
  early return on a missing \<^verbatim>\<open>rect\<close> is not taken.
\<close>

record mouse_event =
  clientX :: real
  clientY :: real
  button :: nat
  rect_left :: real
  rect_top :: real

record wheel_event = mouse_event +
  deltaY :: real

subsection \<open>Wheel zoom\<close>

text \<open>The two state updates of \<^verbatim>\<open>handleWheel\<close>, for a given \<^verbatim>\<open>zoomFactor\<close>.\<close>

definition zoomAt :: "real \<Rightarrow> real \<Rightarrow> real \<Rightarrow> state \<Rightarrow> state" where
  "zoomAt zoomFactor mouseX mouseY s =
     s\<lparr>scale := jmul (scale s) (Fin zoomFactor),
       pan := \<lparr>px = jsub (Fin mouseX) (jmul (jsub (Fin mouseX) (px (pan s))) (Fin zoomFactor)),
               py = jsub (Fin mouseY) (jmul (jsub (Fin mouseY) (py (pan s))) (Fin zoomFactor))\<rparr>\<rparr>"

definition handleWheel :: "wheel_event \<Rightarrow> state \<Rightarrow> state" where
  "handleWheel e s =
     (let zoomFactor = (if deltaY e > 0 then 0.95 else 1.05);
          mouseX = clientX e - rect_left e;
          mouseY = clientY e - rect_top e
      in zoomAt zoomFactor mouseX mouseY s)"

section \<open>Bounds and the fit transform\<close>

record bounds =
  minX :: jsnum
  minY :: jsnum
  maxX :: jsnum
  maxY :: jsnum

text \<open>
  The callback of \<^verbatim>\<open>entities.forEach\<close> in \<^verbatim>\<open>calculateBounds\<close>, on the four running
  variables. The two \<^verbatim>\<open>if\<close> statements test different type tags, so at most one applies.
\<close>

definition boundsStep :: "'i entity_of \<Rightarrow> bounds \<Rightarrow> error + bounds" where
  "boundsStep entity b =
     (case (if etype entity = ''LINE'' then vertices entity else None) of
        Some vs \<Rightarrow>
          (case lineEnds vs of
             None \<Rightarrow> Inl TypeError
           | Some (p1, p2) \<Rightarrow>
               Inr \<lparr>minX = Math_min [minX b, px p1, px p2],
                    minY = Math_min [minY b, py p1, py p2],
                    maxX = Math_max [maxX b, px p1, px p2],
                    maxY = Math_max [maxY b, py p1, py p2]\<rparr>)
      | None \<Rightarrow>
          (case (if etype entity = ''TEXT'' then position entity else None) of
             Some p \<Rightarrow>
               Inr \<lparr>minX = Math_min [minX b, or0 (px p)],
                    minY = Math_min [minY b, or0 (py p)],
                    maxX = Math_max [maxX b, or0 (px p)],
                    maxY = Math_max [maxY b, or0 (py p)]\<rparr>
           | None \<Rightarrow> Inr b))"

fun boundsLoop :: "'i entity_of list \<Rightarrow> bounds \<Rightarrow> error + bounds" where
  "boundsLoop [] b = Inr b"
| "boundsLoop (entity # rest) b =
     (case boundsStep entity b of Inl err \<Rightarrow> Inl err | Inr b' \<Rightarrow> boundsLoop rest b')"

definition calculateBounds :: "'i entity_of list \<Rightarrow> error + bounds" where
  "calculateBounds ents =
     (if ents = [] then Inr \<lparr>minX = Fin (- 10), minY = Fin (- 10), maxX = Fin 10, maxY = Fin 10\<rparr>
      else
        (case boundsLoop ents \<lparr>minX = PosInf, minY = PosInf, maxX = NegInf, maxY = NegInf\<rparr> of
           Inl err \<Rightarrow> Inl err
         | Inr b \<Rightarrow>
             (let padding = jmul (Math_max [jsub (maxX b) (minX b), jsub (maxY b) (minY b)]) (Fin 0.1)
              in Inr \<lparr>minX = jsub (minX b) padding, minY = jsub (minY b) padding,
                      maxX = jadd (maxX b) padding, maxY = jadd (maxY b) padding\<rparr>)))"

text \<open>
  The effect that fits the view: the values it passes to \<^verbatim>\<open>setScale\<close> and \<^verbatim>\<open>setPan\<close>.
  \<open>None\<close> is the early return on an empty entity list, which leaves scale and pan as
  they are. \<open>width\<close> and \<open>height\<close> are the props of the component.
\<close>

record fit =
  newScale :: jsnum
  centerX :: jsnum
  centerY :: jsnum

definition fitTransform :: "'i entity_of list \<Rightarrow> real \<Rightarrow> real \<Rightarrow> error + fit option" where
  "fitTransform ents width height =
     (if ents = [] then Inr None
      else
        (case calculateBounds ents of
           Inl err \<Rightarrow> Inl err
         | Inr bnds \<Rightarrow>
             (let boundWidth = jsub (maxX bnds) (minX bnds);
                  boundHeight = jsub (maxY bnds) (minY bnds);
                  scaleX = jdiv (Fin width) boundWidth;
                  scaleY = jdiv (Fin height) boundHeight;
                  newScale' = jmul (Math_min [scaleX, scaleY]) (Fin 0.9)
              in Inr (Some
                   \<lparr>newScale = newScale',
                    centerX = jsub (jdiv (Fin width) (Fin 2))
                                (jmul (jadd (minX bnds) (jdiv boundWidth (Fin 2))) newScale'),
                    centerY = jadd (jdiv (Fin height) (Fin 2))
                                (jmul (jadd (minY bnds) (jdiv boundHeight (Fin 2))) newScale')\<rparr>))))"

text \<open>
  For the analysis of the fit transform: the points that \<^verbatim>\<open>calculateBounds\<close> folds over, the
  lines on which it does not throw, and the running bounds that enclose a list of finite
  points (the initial infinities for no point).
\<close>

definition boundsPoints :: "'i entity_of \<Rightarrow> point list" where
  "boundsPoints entity =
     (case (if etype entity = ''LINE'' then vertices entity else None) of
        Some vs \<Rightarrow> (case lineEnds vs of None \<Rightarrow> [] | Some (p1, p2) \<Rightarrow> [p1, p2])
      | None \<Rightarrow>
          (case (if etype entity = ''TEXT'' then position entity else None) of
             Some p \<Rightarrow> [\<lparr>px = or0 (px p), py = or0 (py p)\<rparr>]
           | None \<Rightarrow> []))"

definition lineOk :: "'i entity_of \<Rightarrow> bool" where
  "lineOk entity =
     (case (if etype entity = ''LINE'' then vertices entity else None) of
        Some vs \<Rightarrow> 2 \<le> length vs
      | None \<Rightarrow> True)"

definition encloses :: "bounds \<Rightarrow> point list \<Rightarrow> bool" where
  "encloses b ps =
     (if ps = [] then b = \<lparr>minX = PosInf, minY = PosInf, maxX = NegInf, maxY = NegInf\<rparr>
      else (\<exists>x0 y0 x1 y1. b = \<lparr>minX = Fin x0, minY = Fin y0, maxX = Fin x1, maxY = Fin y1\<rparr> \<and>
              (\<forall>p \<in> set ps. jle (Fin x0) (px p) \<and> jle (px p) (Fin x1) \<and>
                             jle (Fin y0) (py p) \<and> jle (py p) (Fin y1))))"

definition finitePoint :: "point \<Rightarrow> bool" where
  "finitePoint p = ((\<exists>x. px p = Fin x) \<and> (\<exists>y. py p = Fin y))"

section \<open>Hit test\<close>

definition isPointNearLine :: "point \<Rightarrow> point \<Rightarrow> point \<Rightarrow> jsnum \<Rightarrow> bool" where
  "isPointNearLine point lineStart lineEnd threshold =
     (let A = jsub (px point) (px lineStart);
          B = jsub (py point) (py lineStart);
          C = jsub (px lineEnd) (px lineStart);
          D = jsub (py lineEnd) (py lineStart);
          dot = jadd (jmul A C) (jmul B D);
          lenSq = jadd (jmul C C) (jmul D D);
          param = (if lenSq \<noteq> Fin 0 then jdiv dot lenSq else Fin (- 1));
          xx = (if jlt param (Fin 0) then px lineStart
                else if jgt param (Fin 1) then px lineEnd
                else jadd (px lineStart) (jmul param C));
          yy = (if jlt param (Fin 0) then py lineStart
                else if jgt param (Fin 1) then py lineEnd
                else jadd (py lineStart) (jmul param D));
          dx = jsub (px point) xx;
          dy = jsub (py point) yy
      in jlt (Math_sqrt (jadd (jmul dx dx) (jmul dy dy))) threshold)"

text \<open>
  The test of a \<^verbatim>\<open>TEXT\<close> entity in \<^verbatim>\<open>findEntityAtPosition\<close>: \<open>txt\<close> is
  \<^verbatim>\<open>entity.text || ''\<close>, \<open>textX\<close> and \<open>textY\<close> the anchor.
\<close>

definition textHit :: "point \<Rightarrow> jsnum \<Rightarrow> jsnum \<Rightarrow> jsnum \<Rightarrow> string \<Rightarrow> bool" where
  "textHit worldPos scale' textX textY txt =
     (let textLen = jdiv (jmul (Fin (real (length txt))) (Fin 8)) scale'
      in jge (px worldPos) (jsub textX (jdiv (Fin 2) scale')) \<and>
         jle (px worldPos) (jadd (jadd textX textLen) (jdiv (Fin 2) scale')) \<and>
         jge (py worldPos) (jsub textY (jdiv (Fin 14) scale')) \<and>
         jle (py worldPos) (jadd textY (jdiv (Fin 2) scale')))"

definition textOr :: "string option \<Rightarrow> string" where
  "textOr t = (case t of None \<Rightarrow> [] | Some txt \<Rightarrow> txt)"

text \<open>
  The loop of \<^verbatim>\<open>findEntityAtPosition\<close>: the first entity that passes its test wins.
  \<open>Inr None\<close> is the result \<^verbatim>\<open>null\<close>; a line with fewer than two vertices that the loop
  reaches makes the function throw.
\<close>

fun findLoop :: "point \<Rightarrow> jsnum \<Rightarrow> jsnum \<Rightarrow> entity list \<Rightarrow> error + string option" where
  "findLoop worldPos selectionThreshold scale' [] = Inr None"
| "findLoop worldPos selectionThreshold scale' (entity # rest) =
     (case (if etype entity = ''LINE'' then vertices entity else None) of
        Some vs \<Rightarrow>
          (case lineEnds vs of
             None \<Rightarrow> Inl TypeError
           | Some (start, end') \<Rightarrow>
               if isPointNearLine worldPos start end' selectionThreshold
               then Inr (Some (eid entity))
               else findLoop worldPos selectionThreshold scale' rest)
      | None \<Rightarrow>
          (case (if etype entity = ''TEXT'' then position entity else None) of
             Some p \<Rightarrow>
               if textHit worldPos scale' (or0 (px p)) (or0 (py p)) (textOr (etext entity))
               then Inr (Some (eid entity))
               else findLoop worldPos selectionThreshold scale' rest
           | None \<Rightarrow> findLoop worldPos selectionThreshold scale' rest))"

definition findEntityAtPosition :: "state \<Rightarrow> real \<Rightarrow> real \<Rightarrow> error + string option" where
  "findEntityAtPosition s x y =
     (let worldPos = screenToWorld (pan s) (scale s) (Fin x) (Fin y);
          selectionThreshold = jdiv (Fin 10) (scale s)
      in findLoop worldPos selectionThreshold (scale s) (entities s))"

text \<open>
  The box of a text label as the specification words it, for a world point \<open>(wx, wy)\<close>
  and an anchor \<open>(ax, ay)\<close>: anchored at the position, extending rightward by the
  estimated width and upward, toward larger world \<open>Y\<close>, by the label height.
\<close>

definition specTextBox :: "real \<Rightarrow> real \<Rightarrow> real \<Rightarrow> real \<Rightarrow> real \<Rightarrow> string \<Rightarrow> bool" where
  "specTextBox wx wy scale' ax ay txt =
     (ax \<le> wx \<and> wx \<le> ax + real (length txt) * 8 / scale' \<and>
      ay \<le> wy \<and> wy \<le> ay + 14 / scale')"

section \<open>Distance to a segment, in the words of the specification\<close>

text \<open>
  For finite points, given by their real coordinates: the point of the segment from \<open>a\<close>
  to \<open>b\<close> at parameter \<open>t\<close> (on the segment for \<open>0 \<le> t \<le> 1\<close>), the Euclidean distance of
  two points, the midpoint of a segment, and the finite point of the model with given
  coordinates.
\<close>

type_synonym rpoint = "real \<times> real"

definition segPoint :: "rpoint \<Rightarrow> rpoint \<Rightarrow> real \<Rightarrow> rpoint" where
  "segPoint a b t = (fst a + t * (fst b - fst a), snd a + t * (snd b - snd a))"

definition pdist :: "rpoint \<Rightarrow> rpoint \<Rightarrow> real" where
  "pdist p q = sqrt ((fst p - fst q) * (fst p - fst q) + (snd p - snd q) * (snd p - snd q))"

definition segMidpoint :: "rpoint \<Rightarrow> rpoint \<Rightarrow> rpoint" where
  "segMidpoint a b = ((fst a + fst b) / 2, (snd a + snd b) / 2)"

definition finPoint :: "rpoint \<Rightarrow> point" where
  "finPoint p = \<lparr>px = Fin (fst p), py = Fin (snd p)\<rparr>"

text \<open>
  The squared distance from the point at offset \<open>(A, B)\<close> from the start of a segment of
  direction \<open>(C, D)\<close> to the segment point at parameter \<open>t\<close>, and the parameter that
  \<^verbatim>\<open>isPointNearLine\<close> settles on: the projection parameter, \<open>-1\<close> for a segment of length
  zero, clamped to \<open>[0, 1]\<close>.
\<close>

definition sqDist :: "real \<Rightarrow> real \<Rightarrow> real \<Rightarrow> real \<Rightarrow> real \<Rightarrow> real" where
  "sqDist A B C D t = (A - t * C) * (A - t * C) + (B - t * D) * (B - t * D)"

definition closestParam :: "real \<Rightarrow> real \<Rightarrow> real \<Rightarrow> real \<Rightarrow> real" where
  "closestParam A B C D =
     (let param = (if C * C + D * D \<noteq> 0 then (A * C + B * D) / (C * C + D * D) else - 1)
      in if param < 0 then 0 else if param > 1 then 1 else param)"

definition hitPoint :: rpoint where
  "hitPoint = (5, 3)"

definition segStart :: rpoint where
  "segStart = (0, 0)"

definition segEnd :: rpoint where
  "segEnd = (10, 0)"

section \<open>Ingestion\<close>

text \<open>
  \<^verbatim>\<open>generateId\<close> returns \<^verbatim>\<open>Math.random().toString(36).substring(2, 9)\<close>: up to seven
  characters, none when \<^verbatim>\<open>Math.random()\<close> returns \<open>0\<close>. The random source is an input of
  the model: \<open>gen k\<close> is the string that the \<open>k\<close>-th call returns.
\<close>

type_synonym generator = "nat \<Rightarrow> string"

text \<open>A generator that returns the strings of a list in turn, for concrete runs.\<close>

definition genOf :: "string list \<Rightarrow> generator" where
  "genOf ids k = (if k < length ids then ids ! k else [])"

text \<open>The test \<^verbatim>\<open>!entity.id\<close>: true of a missing id and of the empty string.\<close>

definition lacksId :: "raw_entity \<Rightarrow> bool" where
  "lacksId entity = (case eid entity of None \<Rightarrow> True | Some i \<Rightarrow> i = [])"

text \<open>The object \<^verbatim>\<open>{ ...entity, id: i }\<close>.\<close>

definition withId :: "string \<Rightarrow> 'i entity_of \<Rightarrow> entity" where
  "withId i entity =
     \<lparr>eid = i, etype = etype entity, vertices = vertices entity, position = position entity,
      etext = etext entity, selected = selected entity\<rparr>"

text \<open>
  The \<^verbatim>\<open>map\<close> of the ingestion effect; \<open>k\<close> counts the calls of \<^verbatim>\<open>generateId\<close> made so
  far. An entity that has an id is returned as it is.
\<close>

fun ingestFrom :: "generator \<Rightarrow> nat \<Rightarrow> raw_entity list \<Rightarrow> entity list" where
  "ingestFrom gen k [] = []"
| "ingestFrom gen k (entity # rest) =
     (case (if lacksId entity then None else eid entity) of
        None \<Rightarrow> withId (gen k) entity # ingestFrom gen (Suc k) rest
      | Some i \<Rightarrow> withId i entity # ingestFrom gen k rest)"

definition ingest :: "generator \<Rightarrow> raw_entity list \<Rightarrow> entity list" where
  "ingest gen raw = ingestFrom gen 0 raw"

text \<open>An entity of the viewer seen again as an entity of a parsed drawing.\<close>

definition asRaw :: "entity \<Rightarrow> raw_entity" where
  "asRaw entity =
     \<lparr>eid = Some (eid entity), etype = etype entity, vertices = vertices entity,
      position = position entity, etext = etext entity, selected = selected entity\<rparr>"

text \<open>The ids that a raw list already carries, and the number of entities that lack one.\<close>

definition presentIds :: "raw_entity list \<Rightarrow> string list" where
  "presentIds raw = map (\<lambda>entity. the (eid entity)) (filter (\<lambda>entity. \<not> lacksId entity) raw)"

definition lackCount :: "raw_entity list \<Rightarrow> nat" where
  "lackCount raw = length (filter lacksId raw)"

section \<open>Event handlers\<close>

text \<open>
  Each handler reads the state of the render it was created in and queues its updates;
  the model returns the state after the updates. A handler that throws before its first
  update returns \<open>Inl\<close>. The cursor style and the optional callback \<^verbatim>\<open>onDxfChange\<close>,
  which no caller in the repository passes, are outputs and not part of the state.
\<close>

subsection \<open>Keyboard\<close>

definition handleKeyDown :: "string \<Rightarrow> state \<Rightarrow> state" where
  "handleKeyDown key s =
     (let s1 = (if key = ''Shift'' then s\<lparr>isShiftPressed := True\<rparr> else s);
          s2 = (if (key = ''Delete'' \<or> key = ''Backspace'') \<and> selectedEntityIds s \<noteq> []
                then s1\<lparr>entities :=
                          filter (\<lambda>entity. eid entity \<notin> set (selectedEntityIds s)) (entities s),
                        selectedEntityIds := []\<rparr>
                else s1)
      in if key = ''Escape''
         then s2\<lparr>selectedEntityIds := [], selectionBox := None, selectionStart := None\<rparr>
         else s2)"

definition handleKeyUp :: "string \<Rightarrow> state \<Rightarrow> state" where
  "handleKeyUp key s = (if key = ''Shift'' then s\<lparr>isShiftPressed := False\<rparr> else s)"

subsection \<open>Pointer down\<close>

definition handleMouseDown :: "mouse_event \<Rightarrow> state \<Rightarrow> error + state" where
  "handleMouseDown e s =
     (let x = clientX e - rect_left e;
          y = clientY e - rect_top e
      in case findEntityAtPosition s x y of
           Inl err \<Rightarrow> Inl err
         | Inr found \<Rightarrow>
             (let onEntity =
                    (case found of
                       None \<Rightarrow> None
                     | Some entityId \<Rightarrow>
                         if entityId \<noteq> [] \<and>
                            (entityId \<in> set (selectedEntityIds s) \<or> button e = 0)
                         then Some entityId else None);
                  s1 =
                    (case onEntity of
                       Some entityId \<Rightarrow>
                         if button e = 2 then
                           (if entityId \<notin> set (selectedEntityIds s)
                            then s\<lparr>mode := Move, selectedEntityIds := [entityId],
                                   isMovingSelection := True\<rparr>
                            else s\<lparr>mode := Move, isMovingSelection := True\<rparr>)
                         else if entityId \<in> set (selectedEntityIds s) then
                           s\<lparr>mode := Move, isMovingSelection := True\<rparr>
                         else if \<not> isShiftPressed s then
                           s\<lparr>selectedEntityIds := [entityId]\<rparr>
                         else
                           s\<lparr>selectedEntityIds := selectedEntityIds s @ [entityId]\<rparr>
                     | None \<Rightarrow>
                         if button e = 0 then
                           (if mode s = Select then
                              (let s' = s\<lparr>selectionStart := Some \<lparr>sx = x, sy = y\<rparr>,
                                          selectionBox := Some \<lparr>box_x = x, box_y = y,
                                                               box_width = 0, box_height = 0\<rparr>\<rparr>
                               in if \<not> isShiftPressed s then s'\<lparr>selectedEntityIds := []\<rparr> else s')
                            else s\<lparr>isDragging := True\<rparr>)
                         else s)
              in Inr (s1\<lparr>dragStart := \<lparr>sx = clientX e, sy = clientY e\<rparr>\<rparr>)))"

subsection \<open>Pointer move\<close>

text \<open>The callback of \<^verbatim>\<open>entities.map\<close> in the branch that moves the selection.\<close>

definition moveEntity :: "string list \<Rightarrow> jsnum \<Rightarrow> jsnum \<Rightarrow> entity \<Rightarrow> error + entity" where
  "moveEntity sel dx dy entity =
     (if eid entity \<notin> set sel then Inr entity
      else
        (case (if etype entity = ''LINE'' then vertices entity else None) of
           Some vs \<Rightarrow>
             (case lineEnds vs of
                None \<Rightarrow> Inl TypeError
              | Some (v0, v1) \<Rightarrow>
                  Inr (entity\<lparr>vertices :=
                         Some [\<lparr>px = jadd (px v0) dx, py = jadd (py v0) dy\<rparr>,
                               \<lparr>px = jadd (px v1) dx, py = jadd (py v1) dy\<rparr>]\<rparr>))
         | None \<Rightarrow>
             (case (if etype entity = ''TEXT'' then position entity else None) of
                Some p \<Rightarrow>
                  Inr (entity\<lparr>position :=
                         Some \<lparr>px = jadd (or0 (px p)) dx, py = jadd (or0 (py p)) dy\<rparr>\<rparr>)
              | None \<Rightarrow> Inr entity)))"

fun mapE :: "('a \<Rightarrow> error + 'b) \<Rightarrow> 'a list \<Rightarrow> error + 'b list" where
  "mapE f [] = Inr []"
| "mapE f (v # vs) =
     (case f v of
        Inl err \<Rightarrow> Inl err
      | Inr w \<Rightarrow> (case mapE f vs of Inl err \<Rightarrow> Inl err | Inr ws \<Rightarrow> Inr (w # ws)))"

definition handleMouseMove :: "mouse_event \<Rightarrow> state \<Rightarrow> error + state" where
  "handleMouseMove e s =
     (let x = clientX e - rect_left e;
          y = clientY e - rect_top e
      in case (if mode s = Select then selectionStart s else None) of
           Some start \<Rightarrow>
             Inr (s\<lparr>selectionBox :=
                      Some \<lparr>box_x = min (sx start) x, box_y = min (sy start) y,
                            box_width = \<bar>x - sx start\<bar>, box_height = \<bar>y - sy start\<bar>\<rparr>\<rparr>)
         | None \<Rightarrow>
             if isMovingSelection s \<and> selectedEntityIds s \<noteq> [] then
               (let dx = jdiv (Fin (clientX e - sx (dragStart s))) (scale s);
                    dy = jmul (jdiv (Fin (clientY e - sy (dragStart s))) (scale s)) (Fin (- 1))
                in case mapE (moveEntity (selectedEntityIds s) dx dy) (entities s) of
                     Inl err \<Rightarrow> Inl err
                   | Inr updatedEntities \<Rightarrow>
                       Inr (s\<lparr>entities := updatedEntities,
                               dragStart := \<lparr>sx = clientX e, sy = clientY e\<rparr>\<rparr>))
             else if isDragging s then
               (let dx = clientX e - sx (dragStart s);
                    dy = clientY e - sy (dragStart s)
                in Inr (s\<lparr>pan := \<lparr>px = jadd (px (pan s)) (Fin dx),
                                   py = jadd (py (pan s)) (Fin dy)\<rparr>,
                          dragStart := \<lparr>sx = clientX e, sy = clientY e\<rparr>\<rparr>))
             else
               (case findEntityAtPosition s x y of Inl err \<Rightarrow> Inl err | Inr found \<Rightarrow> Inr s))"

subsection \<open>Pointer up and pointer leave\<close>

record world_box =
  wminX :: jsnum
  wminY :: jsnum
  wmaxX :: jsnum
  wmaxY :: jsnum

definition worldSelectionBox :: "box \<Rightarrow> point \<Rightarrow> jsnum \<Rightarrow> world_box" where
  "worldSelectionBox b pan' scale' =
     \<lparr>wminX = jdiv (jsub (Fin (box_x b)) (px pan')) scale',
      wminY = jneg (jdiv (jsub (Fin (box_y b + box_height b)) (py pan')) scale'),
      wmaxX = jdiv (jsub (Fin (box_x b + box_width b)) (px pan')) scale',
      wmaxY = jneg (jdiv (jsub (Fin (box_y b)) (py pan')) scale')\<rparr>"

text \<open>The callback of \<^verbatim>\<open>entities.filter\<close> that resolves a selection box.\<close>

definition inSelectionBox :: "world_box \<Rightarrow> entity \<Rightarrow> error + bool" where
  "inSelectionBox w entity =
     (case (if etype entity = ''LINE'' then vertices entity else None) of
        Some vs \<Rightarrow>
          (case lineEnds vs of
             None \<Rightarrow> Inl TypeError
           | Some (p1, p2) \<Rightarrow>
               Inr ((jge (px p1) (wminX w) \<and> jle (px p1) (wmaxX w) \<and>
                     jge (py p1) (wminY w) \<and> jle (py p1) (wmaxY w)) \<or>
                    (jge (px p2) (wminX w) \<and> jle (px p2) (wmaxX w) \<and>
                     jge (py p2) (wminY w) \<and> jle (py p2) (wmaxY w))))
      | None \<Rightarrow>
          (case (if etype entity = ''TEXT'' then position entity else None) of
             Some p \<Rightarrow>
               Inr (jge (or0 (px p)) (wminX w) \<and> jle (or0 (px p)) (wmaxX w) \<and>
                    jge (or0 (py p)) (wminY w) \<and> jle (or0 (py p)) (wmaxY w))
           | None \<Rightarrow> Inr False))"

fun filterE :: "('a \<Rightarrow> error + bool) \<Rightarrow> 'a list \<Rightarrow> error + 'a list" where
  "filterE f [] = Inr []"
| "filterE f (v # vs) =
     (case f v of
        Inl err \<Rightarrow> Inl err
      | Inr keep \<Rightarrow>
          (case filterE f vs of
             Inl err \<Rightarrow> Inl err
           | Inr ws \<Rightarrow> Inr (if keep then v # ws else ws)))"

text \<open>
  \<^verbatim>\<open>[...new Set(ids)]\<close>: the elements of \<open>ids\<close> without repetition, each at the place
  of its first occurrence.
\<close>

definition setSpread :: "'a list \<Rightarrow> 'a list" where
  "setSpread ids = rev (remdups (rev ids))"

text \<open>
  The selection box is resolved first, and a throw there leaves every update undone. The
  last look under the pointer only sets the cursor, after the updates are queued.
\<close>

definition handleMouseUp :: "mouse_event \<Rightarrow> state \<Rightarrow> error + state" where
  "handleMouseUp e s =
     (case
        (case (if selectionStart s \<noteq> None \<and> mode s = Select then selectionBox s else None) of
           Some b \<Rightarrow>
             (case filterE (inSelectionBox (worldSelectionBox b (pan s) (scale s))) (entities s) of
                Inl err \<Rightarrow> Inl err
              | Inr selectedEntities \<Rightarrow>
                  if isShiftPressed s then
                    Inr (s\<lparr>selectedEntityIds :=
                             setSpread (selectedEntityIds s @ map eid selectedEntities)\<rparr>)
                  else
                    Inr (s\<lparr>selectedEntityIds := map eid selectedEntities\<rparr>))
         | None \<Rightarrow> Inr s)
      of
        Inl err \<Rightarrow> Inl err
      | Inr s1 \<Rightarrow>
          Inr (s1\<lparr>isDragging := False, isMovingSelection := False,
                  selectionStart := None, selectionBox := None\<rparr>))"

subsection \<open>Context menu and the three buttons\<close>

definition handleContextMenu :: "state \<Rightarrow> state" where
  "handleContextMenu s = s\<lparr>mode := (if mode s = Select then Move else Select)\<rparr>"

definition clickSelect :: "state \<Rightarrow> state" where
  "clickSelect s = s\<lparr>mode := Select\<rparr>"

definition clickMove :: "state \<Rightarrow> state" where
  "clickMove s = s\<lparr>mode := Move\<rparr>"

definition clickClearSelection :: "state \<Rightarrow> state" where
  "clickClearSelection s = s\<lparr>selectedEntityIds := []\<rparr>"

section \<open>The viewer as a transition system\<close>

text \<open>
  The effect on \<open>selectedEntityIds\<close> rewrites the \<open>selected\<close> flag of every entity. It
  runs after each render in which the selection was set; run again on an unchanged
  selection it computes the same flags, so the model runs it after every event.
\<close>

definition applySelection :: "state \<Rightarrow> state" where
  "applySelection s =
     s\<lparr>entities :=
         map (\<lambda>entity. entity\<lparr>selected := Some (eid entity \<in> set (selectedEntityIds s))\<rparr>)
           (entities s)\<rparr>"

text \<open>
  The events of the canvas, of the window and of the buttons. The effect that fits the
  view runs again whenever the entity array is replaced and is the only writer of scale
  and pan besides the handlers; \<open>SetView\<close> stands for one run of it, with the scale and
  the pan it sets, which may be \<^verbatim>\<open>Infinity\<close> or \<^verbatim>\<open>NaN\<close>.
\<close>

datatype event =
    MouseDown mouse_event
  | MouseMove mouse_event
  | MouseUp mouse_event
  | MouseLeave mouse_event
  | ContextMenu
  | Wheel wheel_event
  | KeyDown string
  | KeyUp string
  | ClickSelect
  | ClickMove
  | ClickClearSelection
  | SetView jsnum point

fun handle :: "event \<Rightarrow> state \<Rightarrow> error + state" where
  "handle (MouseDown e) s = handleMouseDown e s"
| "handle (MouseMove e) s = handleMouseMove e s"
| "handle (MouseUp e) s = handleMouseUp e s"
| "handle (MouseLeave e) s = handleMouseUp e s"
| "handle ContextMenu s = Inr (handleContextMenu s)"
| "handle (Wheel e) s = Inr (handleWheel e s)"
| "handle (KeyDown key) s = Inr (handleKeyDown key s)"
| "handle (KeyUp key) s = Inr (handleKeyUp key s)"
| "handle ClickSelect s = Inr (clickSelect s)"
| "handle ClickMove s = Inr (clickMove s)"
| "handle ClickClearSelection s = Inr (clickClearSelection s)"
| "handle (SetView sc pn) s = Inr (s\<lparr>scale := sc, pan := pn\<rparr>)"

text \<open>
  What one run of the fit effect on the entities \<open>ents\<close> in a viewport of \<open>width\<close> by
  \<open>height\<close> amounts to: the event that sets the scale and the pan of \<open>fitTransform\<close>, or
  nothing on the early return.
\<close>

definition fitEvents :: "entity list \<Rightarrow> real \<Rightarrow> real \<Rightarrow> event list" where
  "fitEvents ents width height =
     (case fitTransform ents width height of
        Inr (Some f) \<Rightarrow> [SetView (newScale f) \<lparr>px = centerX f, py = centerY f\<rparr>]
      | Inr None \<Rightarrow> []
      | Inl err \<Rightarrow> [])"

text \<open>A handler that throws leaves the state as it was, and the viewer goes on.\<close>

definition step :: "state \<Rightarrow> event \<Rightarrow> state" where
  "step s ev = (case handle ev s of Inl err \<Rightarrow> s | Inr s' \<Rightarrow> applySelection s')"

definition run :: "state \<Rightarrow> event list \<Rightarrow> state" where
  "run s evs = foldl step s evs"

text \<open>The state after mount: the defaults of \<^verbatim>\<open>useState\<close>, and the ingested entities.\<close>

definition initState :: "entity list \<Rightarrow> state" where
  "initState ents =
     applySelection
       \<lparr>scale = Fin 1, pan = \<lparr>px = Fin 0, py = Fin 0\<rparr>, isDragging = False,
        dragStart = \<lparr>sx = 0, sy = 0\<rparr>, entities = ents, selectedEntityIds = [],
        isMovingSelection = False, selectionStart = None, selectionBox = None,
        mode = Select, isShiftPressed = False\<rparr>"

text \<open>Every id of the selection is the id of an entity of the store.\<close>

definition selectionInStore :: "state \<Rightarrow> bool" where
  "selectionInStore s = (set (selectedEntityIds s) \<subseteq> eid ` set (entities s))"

text \<open>A selection box, while it is drawn, has a width and a height that are not negative.\<close>

definition boxOk :: "state \<Rightarrow> bool" where
  "boxOk s = (case selectionBox s of None \<Rightarrow> True
              | Some b \<Rightarrow> 0 \<le> box_width b \<and> 0 \<le> box_height b)"

section \<open>Concrete scenes\<close>

text \<open>
  The scene of scenario C: one selected line from \<open>(0, 0)\<close> to \<open>(10, 0)\<close> at scale \<open>2\<close>,
  in the middle of a drag that started at the screen point \<open>(100, 100)\<close>, and a pointer
  move to \<open>(110, 100)\<close>.
\<close>

definition exampleLine :: entity where
  "exampleLine =
     \<lparr>eid = ''a'', etype = ''LINE'',
      vertices = Some [\<lparr>px = Fin 0, py = Fin 0\<rparr>, \<lparr>px = Fin 10, py = Fin 0\<rparr>],
      position = None, etext = None, selected = Some True\<rparr>"

definition dragState :: state where
  "dragState =
     \<lparr>scale = Fin 2, pan = \<lparr>px = Fin 0, py = Fin 0\<rparr>, isDragging = False,
      dragStart = \<lparr>sx = 100, sy = 100\<rparr>, entities = [exampleLine],
      selectedEntityIds = [''a''], isMovingSelection = True, selectionStart = None,
      selectionBox = None, mode = Move, isShiftPressed = False\<rparr>"

definition dragEvent :: mouse_event where
  "dragEvent = \<lparr>clientX = 110, clientY = 100, button = 0, rect_left = 0, rect_top = 0\<rparr>"

text \<open>A wheel event at the canvas point \<open>(30, 40)\<close> that zooms in.\<close>

definition wheelEvent :: wheel_event where
  "wheelEvent =
     \<lparr>clientX = 35, clientY = 48, button = 0, rect_left = 5, rect_top = 8, deltaY = - 1\<rparr>"

text \<open>A press at the canvas point \<open>(50, 50)\<close> and a move up and to the left, to \<open>(20, 30)\<close>.\<close>

definition pressEvent :: mouse_event where
  "pressEvent = \<lparr>clientX = 50, clientY = 50, button = 0, rect_left = 0, rect_top = 0\<rparr>"

definition moveEvent :: mouse_event where
  "moveEvent = \<lparr>clientX = 20, clientY = 30, button = 0, rect_left = 0, rect_top = 0\<rparr>"

text \<open>
  The scene of scenario B: one text label \<open>AB\<close> anchored at the origin, seen at scale \<open>1\<close>
  with the world origin at the canvas point \<open>(100, 100)\<close>. The canvas point \<open>(105, 93)\<close>
  is the world point \<open>(5, 7)\<close>, on the label as it is drawn; the canvas point
  \<open>(105, 110)\<close> is the world point \<open>(5, -10)\<close>, below the label.
\<close>

definition exampleText :: entity where
  "exampleText =
     \<lparr>eid = ''t'', etype = ''TEXT'', vertices = None,
      position = Some \<lparr>px = Fin 0, py = Fin 0\<rparr>, etext = Some ''AB'', selected = Some False\<rparr>"

definition textState :: state where
  "textState =
     \<lparr>scale = Fin 1, pan = \<lparr>px = Fin 100, py = Fin 100\<rparr>, isDragging = False,
      dragStart = \<lparr>sx = 0, sy = 0\<rparr>, entities = [exampleText],
      selectedEntityIds = [], isMovingSelection = False, selectionStart = None,
      selectionBox = None, mode = Select, isShiftPressed = False\<rparr>"

text \<open>An entity of a parsed drawing with a given id, or with none.\<close>

definition rawEntity :: "string option \<Rightarrow> raw_entity" where
  "rawEntity i =
     \<lparr>eid = i, etype = ''LINE'',
      vertices = Some [\<lparr>px = Fin 0, py = Fin 0\<rparr>, \<lparr>px = Fin 10, py = Fin 0\<rparr>],
      position = None, etext = None, selected = None\<rparr>"

text \<open>A click with the left button at the canvas point \<open>(5, 0)\<close>.\<close>

definition clickEvent :: mouse_event where
  "clickEvent = \<lparr>clientX = 5, clientY = 0, button = 0, rect_left = 0, rect_top = 0\<rparr>"

section \<open>Arithmetic on finite numbers\<close>

lemma jsub_Fin [simp]: "jsub (Fin a) (Fin b) = Fin (a - b)"
  by (simp add: jsub_def)

lemma jgt_Fin [simp]: "jgt (Fin a) (Fin b) = (b < a)"
  by (simp add: jgt_def)

lemma jge_Fin [simp]: "jge (Fin a) (Fin b) = (b \<le> a)"
  by (simp add: jge_def)

lemma or0_Fin [simp]: "or0 (Fin a) = Fin a"
  by (simp add: or0_def)

lemma jdiv_Fin: "b \<noteq> 0 \<Longrightarrow> jdiv (Fin a) (Fin b) = Fin (a / b)"
  by simp

section \<open>Round trip of the coordinate transform\<close>

text \<open>
  C3. For every finite point \<open>p\<close>, every scale \<open>> 0\<close> and every pan, the screen position
  that \<^verbatim>\<open>drawLine\<close> computes for \<open>p\<close> (\<open>p.x * scale + pan.x\<close>, \<open>- p.y * scale + pan.y\<close>) is
  mapped back to \<open>p\<close> by \<^verbatim>\<open>screenToWorld\<close>, exactly over the reals. Both end points of the
  line are covered.
\<close>

theorem screenToWorld_drawLine_roundtrip:
  assumes "0 < sc"
  shows "screenToWorld \<lparr>px = Fin pnx, py = Fin pny\<rparr> (Fin sc)
           (px (fst (drawLine (Fin a, Fin b) (Fin c, Fin d) (Fin sc) (Fin pnx) (Fin pny))))
           (py (fst (drawLine (Fin a, Fin b) (Fin c, Fin d) (Fin sc) (Fin pnx) (Fin pny))))
           = \<lparr>px = Fin a, py = Fin b\<rparr>
       \<and> screenToWorld \<lparr>px = Fin pnx, py = Fin pny\<rparr> (Fin sc)
           (px (snd (drawLine (Fin a, Fin b) (Fin c, Fin d) (Fin sc) (Fin pnx) (Fin pny))))
           (py (snd (drawLine (Fin a, Fin b) (Fin c, Fin d) (Fin sc) (Fin pnx) (Fin pny))))
           = \<lparr>px = Fin c, py = Fin d\<rparr>"
  using assms by (simp add: screenToWorld_def drawLine_def)

theorem screenToWorld_drawLine_roundtrip_witness:
  "(0::real) < 2
   \<and> screenToWorld \<lparr>px = Fin 7, py = Fin 9\<rparr> (Fin 2)
        (px (fst (drawLine (Fin 3, Fin 4) (Fin 5, Fin 6) (Fin 2) (Fin 7) (Fin 9))))
        (py (fst (drawLine (Fin 3, Fin 4) (Fin 5, Fin 6) (Fin 2) (Fin 7) (Fin 9))))
      = \<lparr>px = Fin 3, py = Fin 4\<rparr>
   \<and> px (fst (drawLine (Fin 3, Fin 4) (Fin 5, Fin 6) (Fin 2) (Fin 7) (Fin 9))) = Fin 13
   \<and> py (fst (drawLine (Fin 3, Fin 4) (Fin 5, Fin 6) (Fin 2) (Fin 7) (Fin 9))) = Fin 1"
  using screenToWorld_drawLine_roundtrip [of 2 7 9 3 4 5 6]
  by (simp add: drawLine_def)

section \<open>Zoom toward the pointer\<close>

text \<open>
  C9. A wheel step with factor \<open>f > 0\<close> at pointer position \<open>q\<close> sets
  \<open>scale' = scale * f\<close> and \<open>pan' = q - (q - pan) * f\<close>; for every scale \<open>> 0\<close> and every
  pan the world point under the pointer is the same before and after the step. This
  holds for the update with any positive factor, and so for \<^verbatim>\<open>handleWheel\<close>, whose
  factor is \<open>0.95\<close> or \<open>1.05\<close>.
\<close>

theorem handleWheel_keeps_point_under_pointer:
  assumes "0 < f" and "scale s = Fin sc" and "0 < sc" and "pan s = \<lparr>px = Fin pnx, py = Fin pny\<rparr>"
  shows "screenToWorld (pan (zoomAt f qx qy s)) (scale (zoomAt f qx qy s)) (Fin qx) (Fin qy)
           = screenToWorld (pan s) (scale s) (Fin qx) (Fin qy)
       \<and> scale (zoomAt f qx qy s) = Fin (sc * f)
       \<and> screenToWorld (pan (handleWheel e s)) (scale (handleWheel e s))
            (Fin (clientX e - rect_left e)) (Fin (clientY e - rect_top e))
           = screenToWorld (pan s) (scale s)
               (Fin (clientX e - rect_left e)) (Fin (clientY e - rect_top e))"
  using assms by (simp add: screenToWorld_def zoomAt_def handleWheel_def Let_def)

theorem handleWheel_keeps_point_under_pointer_witness:
  "screenToWorld (pan (handleWheel wheelEvent dragState)) (scale (handleWheel wheelEvent dragState))
      (Fin 30) (Fin 40) = \<lparr>px = Fin 15, py = Fin (- 20)\<rparr>
   \<and> screenToWorld (pan dragState) (scale dragState) (Fin 30) (Fin 40)
      = \<lparr>px = Fin 15, py = Fin (- 20)\<rparr>
   \<and> scale (zoomAt 2 30 40 dragState) = Fin 4"
  using handleWheel_keeps_point_under_pointer [of 2 dragState 2 0 0 30 40 wheelEvent]
  by (simp add: dragState_def wheelEvent_def screenToWorld_def)

section \<open>The selection stays inside the store\<close>

lemma findLoop_Some_in_store:
  "findLoop w t sc ents = Inr (Some i) \<Longrightarrow> i \<in> set (map eid ents)"
  by (induction ents) (auto split: option.splits if_splits prod.splits)

lemma findEntityAtPosition_in_store:
  "findEntityAtPosition s x y = Inr (Some i) \<Longrightarrow> i \<in> set (map eid (entities s))"
  unfolding findEntityAtPosition_def Let_def by (rule findLoop_Some_in_store)

lemma moveEntity_eid: "moveEntity sel dx dy e = Inr e' \<Longrightarrow> eid e' = eid e"
  by (auto simp: moveEntity_def split: if_splits option.splits prod.splits)

lemma mapE_moveEntity_eids:
  "mapE (moveEntity sel dx dy) ents = Inr ents' \<Longrightarrow> map eid ents' = map eid ents"
  by (induction ents arbitrary: ents') (auto split: sum.splits dest: moveEntity_eid)

lemma filterE_subset: "filterE f vs = Inr ws \<Longrightarrow> set ws \<subseteq> set vs"
  by (induction vs arbitrary: ws) (auto split: sum.splits if_splits)

lemma set_setSpread: "set (setSpread ids) = set ids"
  by (simp add: setSpread_def)

lemma selectionInStore_map:
  "selectionInStore s = (set (selectedEntityIds s) \<subseteq> set (map eid (entities s)))"
  by (simp add: selectionInStore_def)

lemma applySelection_eids: "map eid (entities (applySelection s)) = map eid (entities s)"
  by (simp add: applySelection_def comp_def)

lemma applySelection_sel: "selectedEntityIds (applySelection s) = selectedEntityIds s"
  by (simp add: applySelection_def)

lemma applySelection_keeps:
  "selectionInStore s \<Longrightarrow> selectionInStore (applySelection s)"
  unfolding selectionInStore_map applySelection_eids applySelection_sel .

lemma handleKeyDown_keeps:
  "selectionInStore s \<Longrightarrow> selectionInStore (handleKeyDown key s)"
  by (auto simp: selectionInStore_def handleKeyDown_def Let_def)


lemma mapE_moveEntity_ids:
  "mapE (moveEntity sel dx dy) ents = Inr ents' \<Longrightarrow> eid ` set ents' = eid ` set ents"
  by (metis mapE_moveEntity_eids set_map)

lemma findEntityAtPosition_in_store':
  "findEntityAtPosition s x y = Inr (Some i) \<Longrightarrow> i \<in> eid ` set (entities s)"
  using findEntityAtPosition_in_store by fastforce

lemma handleMouseDown_keeps:
  assumes "selectionInStore s" and "handleMouseDown e s = Inr s'"
  shows "selectionInStore s'"
proof -
  obtain found where f: "findEntityAtPosition s (clientX e - rect_left e) (clientY e - rect_top e) = Inr found"
    using assms(2) by (auto simp: handleMouseDown_def Let_def split: sum.splits)
  have ent: "entities s' = entities s"
    using assms(2) f by (auto simp: handleMouseDown_def Let_def split: option.splits if_splits)
  have "set (selectedEntityIds s') \<subseteq> set (selectedEntityIds s) \<union> eid ` set (entities s)"
  proof (cases found)
    case None
    then show ?thesis
      using assms(2) f by (auto simp: handleMouseDown_def Let_def split: if_splits)
  next
    case (Some i)
    then have "i \<in> eid ` set (entities s)"
      using f findEntityAtPosition_in_store' by blast
    then show ?thesis
      using assms(2) f Some by (auto simp: handleMouseDown_def Let_def split: if_splits)
  qed
  then show ?thesis
    using assms(1) ent unfolding selectionInStore_def by auto
qed

lemma handleMouseMove_ents:
  assumes "handleMouseMove e s = Inr s'"
  shows "entities s' = entities s
       \<or> (\<exists>dx dy. mapE (moveEntity (selectedEntityIds s) dx dy) (entities s) = Inr (entities s'))"
  using assms
  by (auto simp: handleMouseMove_def Let_def split: sum.splits option.splits if_splits)

lemma handleMouseMove_keeps:
  assumes "selectionInStore s" and "handleMouseMove e s = Inr s'"
  shows "selectionInStore s'"
proof -
  have sel: "selectedEntityIds s' = selectedEntityIds s"
    using assms(2)
    by (auto simp: handleMouseMove_def Let_def split: sum.splits option.splits if_splits)
  have "eid ` set (entities s') = eid ` set (entities s)"
    using handleMouseMove_ents [OF assms(2)] mapE_moveEntity_ids by metis
  then show ?thesis
    using assms(1) sel unfolding selectionInStore_def by simp
qed

lemma handleMouseUp_sel:
  assumes "handleMouseUp e s = Inr s'"
  shows "selectedEntityIds s' = selectedEntityIds s
       \<or> (\<exists>ws. set ws \<subseteq> set (entities s) \<and>
             (selectedEntityIds s' = setSpread (selectedEntityIds s @ map eid ws)
              \<or> selectedEntityIds s' = map eid ws))"
  using assms
  by (auto simp: handleMouseUp_def Let_def
      split: sum.splits option.splits if_splits dest!: filterE_subset)

lemma handleMouseUp_keeps:
  assumes "selectionInStore s" and "handleMouseUp e s = Inr s'"
  shows "selectionInStore s'"
proof -
  have ent: "entities s' = entities s"
    using assms(2)
    by (auto simp: handleMouseUp_def Let_def split: sum.splits option.splits if_splits)
  have "set (selectedEntityIds s') \<subseteq> set (selectedEntityIds s) \<union> eid ` set (entities s)"
    using handleMouseUp_sel [OF assms(2)] by (elim disjE exE conjE) (simp_all add: set_setSpread, blast+)
  then show ?thesis
    using assms(1) ent unfolding selectionInStore_def by auto
qed

lemma handle_keeps:
  assumes "selectionInStore s" and "handle ev s = Inr s'"
  shows "selectionInStore s'"
proof (cases ev)
  case (MouseDown e)
  then show ?thesis using assms handleMouseDown_keeps by simp
next
  case (MouseMove e)
  then show ?thesis using assms handleMouseMove_keeps by simp
next
  case (MouseUp e)
  then show ?thesis using assms handleMouseUp_keeps by simp
next
  case (MouseLeave e)
  then show ?thesis using assms handleMouseUp_keeps by simp
next
  case (KeyDown key)
  then show ?thesis using assms handleKeyDown_keeps by auto
next
  case (KeyUp key)
  then show ?thesis
    using assms by (auto simp: selectionInStore_def handleKeyUp_def split: if_splits)
next
  case (Wheel e)
  then show ?thesis
    using assms by (auto simp: selectionInStore_def handleWheel_def zoomAt_def Let_def)
qed (use assms in \<open>auto simp: selectionInStore_def handleContextMenu_def
      clickSelect_def clickMove_def clickClearSelection_def\<close>)

lemma step_keeps: "selectionInStore s \<Longrightarrow> selectionInStore (step s ev)"
  by (auto simp: step_def split: sum.splits intro: applySelection_keeps handle_keeps)

lemma run_keeps: "selectionInStore s \<Longrightarrow> selectionInStore (run s evs)"
  unfolding run_def by (induction evs arbitrary: s) (simp_all add: step_keeps)

lemma initState_inv: "selectionInStore (initState ents)"
  by (simp add: initState_def selectionInStore_def applySelection_def)

text \<open>
  C4. Start from the state after mount of any ingested entity list, with the empty
  selection, and let any sequence of events happen: clicks that select one entity or add
  to the selection, box selections, the button that clears the selection, Delete,
  Backspace and Escape, and every other event of the viewer in between. Every id of
  \<open>selectedEntityIds\<close> is then the id of an entity of the store.
\<close>

theorem selection_subset_of_store:
  "selectionInStore (run (initState (ingest gen raw)) evs)"
  by (rule run_keeps [OF initState_inv])

text \<open>
  Scenario D on one line from \<open>(0, 0)\<close> to \<open>(10, 0)\<close> that is ingested without id: a click
  on it selects it, and Delete then empties the store and the selection.
\<close>

lemma click_selects:
  "run (initState (ingest (genOf [''a'']) [rawEntity None])) [MouseDown clickEvent]
     = (initState (ingest (genOf [''a'']) [rawEntity None]))
         \<lparr>dragStart := \<lparr>sx = 5, sy = 0\<rparr>,
          entities := [(withId ''a'' (rawEntity None))\<lparr>selected := Some True\<rparr>],
          selectedEntityIds := [''a'']\<rparr>"
  by (simp add: run_def step_def initState_def applySelection_def handleMouseDown_def
      findEntityAtPosition_def screenToWorld_def isPointNearLine_def clickEvent_def
      ingest_def rawEntity_def lacksId_def withId_def genOf_def jgt_def Let_def)

theorem selection_subset_of_store_witness:
  "selectedEntityIds (run (initState (ingest (genOf [''a'']) [rawEntity None])) [MouseDown clickEvent])
     = [''a'']
   \<and> selectionInStore (run (initState (ingest (genOf [''a'']) [rawEntity None])) [MouseDown clickEvent])
   \<and> entities (run (initState (ingest (genOf [''a'']) [rawEntity None]))
        [MouseDown clickEvent, KeyDown ''Delete'']) = []
   \<and> selectedEntityIds (run (initState (ingest (genOf [''a'']) [rawEntity None]))
        [MouseDown clickEvent, KeyDown ''Delete'']) = []"
proof -
  have "run (initState (ingest (genOf [''a'']) [rawEntity None])) [MouseDown clickEvent, KeyDown ''Delete'']
      = step (run (initState (ingest (genOf [''a'']) [rawEntity None])) [MouseDown clickEvent]) (KeyDown ''Delete'')"
    by (simp add: run_def)
  then show ?thesis
    using selection_subset_of_store [of "genOf [''a'']" "[rawEntity None]" "[MouseDown clickEvent]"]
    unfolding click_selects
    by (simp add: step_def handleKeyDown_def applySelection_def initState_def withId_def Let_def)
qed

section \<open>Moving the selection\<close>

lemma mapE_total:
  assumes "\<forall>v \<in> set vs. \<exists>w. f v = Inr w"
  shows "\<exists>ws. mapE f vs = Inr ws \<and> length ws = length vs \<and> (\<forall>i < length vs. f (vs ! i) = Inr (ws ! i))"
  using assms
proof (induction vs)
  case Nil
  then show ?case by simp
next
  case (Cons v vs)
  then obtain w where w: "f v = Inr w" by auto
  from Cons obtain ws where ws: "mapE f vs = Inr ws" "length ws = length vs"
    "\<forall>i < length vs. f (vs ! i) = Inr (ws ! i)" by auto
  have "\<forall>i < length (v # vs). f ((v # vs) ! i) = Inr ((w # ws) ! i)"
    using w ws(3) by (auto simp: nth_Cons split: nat.splits)
  then show ?case using w ws by auto
qed

lemma moveEntity_total:
  assumes "eid entity \<in> set sel \<longrightarrow> etype entity = ''LINE'' \<longrightarrow>
           (\<forall>vs. vertices entity = Some vs \<longrightarrow> 2 \<le> length vs)"
  shows "\<exists>w. moveEntity sel dx dy entity = Inr w"
proof (cases "eid entity \<in> set sel \<and> etype entity = ''LINE''")
  case False
  then show ?thesis by (auto simp: moveEntity_def split: option.splits)
next
  case True
  show ?thesis
  proof (cases "vertices entity")
    case None
    then show ?thesis using True by (auto simp: moveEntity_def split: option.splits)
  next
    case (Some vs)
    with assms True have "2 \<le> length vs" by simp
    then obtain a b rest where "vs = a # b # rest"
      by (cases vs; cases "tl vs") auto
    then show ?thesis using True Some by (simp add: moveEntity_def)
  qed
qed

lemma moveEntity_cases:
  assumes "moveEntity sel dx dy entity = Inr w"
  shows "(eid entity \<notin> set sel \<longrightarrow> w = entity)
     \<and> (eid entity \<in> set sel \<longrightarrow> etype entity = ''LINE'' \<longrightarrow>
          (\<forall>a b rest. vertices entity = Some (a # b # rest) \<longrightarrow>
             w = entity\<lparr>vertices :=
                   Some [\<lparr>px = jadd (or0 (px a)) dx, py = jadd (or0 (py a)) dy\<rparr>,
                         \<lparr>px = jadd (or0 (px b)) dx, py = jadd (or0 (py b)) dy\<rparr>]\<rparr>))
     \<and> (eid entity \<in> set sel \<longrightarrow> etype entity = ''TEXT'' \<longrightarrow>
          (\<forall>p. position entity = Some p \<longrightarrow>
             w = entity\<lparr>position :=
                   Some \<lparr>px = jadd (or0 (px p)) dx, py = jadd (or0 (py p)) dy\<rparr>\<rparr>))"
  using assms by (auto simp: moveEntity_def split: if_splits option.splits)

text \<open>
  C8. During a drag that moves a non-empty selection, a pointer move by the screen delta
  \<open>(dx, dy)\<close> at scale \<open>sc > 0\<close> adds the world delta \<open>(dx / sc, - dy / sc)\<close> to both end
  points of every selected line and to the position of every selected text (each
  coordinate read as \<^verbatim>\<open>v || 0\<close>, which is \<open>v\<close> itself for a finite \<open>v\<close>), and returns
  every entity that is not selected as it was. The handler returns, given that the
  selected lines have their two vertices. In scenario C, a drag by \<open>(10, 0)\<close> at scale \<open>2\<close>
  moves the end points of the line by \<open>(5, 0)\<close>.
\<close>

theorem drag_translates_selection:
  assumes "\<not> (mode s = Select \<and> selectionStart s \<noteq> None)"
    and "isMovingSelection s" and "selectedEntityIds s \<noteq> []"
    and "\<forall>entity \<in> set (entities s). eid entity \<in> set (selectedEntityIds s) \<longrightarrow>
           etype entity = ''LINE'' \<longrightarrow> (\<forall>vs. vertices entity = Some vs \<longrightarrow> 2 \<le> length vs)"
    and "clientX e - sx (dragStart s) = dx" and "clientY e - sy (dragStart s) = dy"
    and "scale s = Fin sc" and "0 < sc"
  shows "\<exists>s'. handleMouseMove e s = Inr s' \<and> length (entities s') = length (entities s) \<and>
     (\<forall>i < length (entities s).
        (eid (entities s ! i) \<notin> set (selectedEntityIds s) \<longrightarrow> entities s' ! i = entities s ! i)
      \<and> (eid (entities s ! i) \<in> set (selectedEntityIds s) \<longrightarrow> etype (entities s ! i) = ''LINE'' \<longrightarrow>
          (\<forall>a b rest. vertices (entities s ! i) = Some (a # b # rest) \<longrightarrow>
             entities s' ! i = (entities s ! i)
               \<lparr>vertices :=
                  Some [\<lparr>px = jadd (or0 (px a)) (Fin (dx / sc)),
                         py = jadd (or0 (py a)) (Fin (- (dy / sc)))\<rparr>,
                        \<lparr>px = jadd (or0 (px b)) (Fin (dx / sc)),
                         py = jadd (or0 (py b)) (Fin (- (dy / sc)))\<rparr>]\<rparr>))
      \<and> (eid (entities s ! i) \<in> set (selectedEntityIds s) \<longrightarrow> etype (entities s ! i) = ''TEXT'' \<longrightarrow>
          (\<forall>p. position (entities s ! i) = Some p \<longrightarrow>
             entities s' ! i = (entities s ! i)
               \<lparr>position :=
                  Some \<lparr>px = jadd (or0 (px p)) (Fin (dx / sc)),
                        py = jadd (or0 (py p)) (Fin (- (dy / sc)))\<rparr>\<rparr>)))"
proof -
  let ?f = "moveEntity (selectedEntityIds s) (Fin (dx / sc)) (Fin (- (dy / sc)))"
  have "\<forall>v \<in> set (entities s). \<exists>w. ?f v = Inr w"
    using assms(4) moveEntity_total by blast
  from mapE_total [OF this] obtain ws where ws: "mapE ?f (entities s) = Inr ws"
    "length ws = length (entities s)" "\<forall>i < length (entities s). ?f (entities s ! i) = Inr (ws ! i)"
    by blast
  have sel: "(if mode s = Select then selectionStart s else None) = None"
    using assms(1) by auto
  have h: "handleMouseMove e s = Inr (s\<lparr>entities := ws, dragStart := \<lparr>sx = clientX e, sy = clientY e\<rparr>\<rparr>)"
    using assms(2,3,5,6,7,8) ws(1) sel by (simp add: handleMouseMove_def Let_def)
  show ?thesis
    using h ws(2,3) moveEntity_cases [of "selectedEntityIds s" "Fin (dx / sc)" "Fin (- (dy / sc))"]
    by (intro exI [of _ "s\<lparr>entities := ws, dragStart := \<lparr>sx = clientX e, sy = clientY e\<rparr>\<rparr>"]) simp
qed


theorem drag_translates_selection_witness:
  "\<exists>s'. handleMouseMove dragEvent dragState = Inr s' \<and> length (entities s') = 1 \<and>
     entities s' ! 0 =
       exampleLine\<lparr>vertices := Some [\<lparr>px = Fin 5, py = Fin 0\<rparr>, \<lparr>px = Fin 15, py = Fin 0\<rparr>]\<rparr>"
  using drag_translates_selection [of dragState dragEvent 10 0 2]
  by (simp add: dragState_def dragEvent_def exampleLine_def)

section \<open>The selection box\<close>

lemma handle_boxOk:
  assumes "boxOk s" and "handle ev s = Inr s'"
  shows "boxOk s'"
proof (cases ev)
  case (MouseDown e)
  then show ?thesis
    using assms
    by (auto simp: boxOk_def handleMouseDown_def Let_def split: sum.splits option.splits if_splits)
next
  case (MouseMove e)
  then show ?thesis
    using assms
    by (auto simp: boxOk_def handleMouseMove_def Let_def split: sum.splits option.splits if_splits)
next
  case (MouseUp e)
  then show ?thesis
    using assms
    by (auto simp: boxOk_def handleMouseUp_def Let_def split: sum.splits option.splits if_splits)
next
  case (MouseLeave e)
  then show ?thesis
    using assms
    by (auto simp: boxOk_def handleMouseUp_def Let_def split: sum.splits option.splits if_splits)
next
  case (KeyDown key)
  then show ?thesis
    using assms by (auto simp: boxOk_def handleKeyDown_def Let_def split: if_splits)
next
  case (KeyUp key)
  then show ?thesis
    using assms by (auto simp: boxOk_def handleKeyUp_def split: if_splits)
next
  case (Wheel e)
  then show ?thesis
    using assms by (auto simp: boxOk_def handleWheel_def zoomAt_def Let_def)
qed (use assms in \<open>auto simp: boxOk_def handleContextMenu_def
      clickSelect_def clickMove_def clickClearSelection_def\<close>)

lemma applySelection_boxOk: "boxOk (applySelection s) = boxOk s"
  by (simp add: boxOk_def applySelection_def)

lemma step_boxOk: "boxOk s \<Longrightarrow> boxOk (step s ev)"
  by (auto simp: step_def applySelection_boxOk split: sum.splits dest: handle_boxOk)

lemma run_boxOk: "boxOk s \<Longrightarrow> boxOk (run s evs)"
  unfolding run_def by (induction evs arbitrary: s) (simp_all add: step_boxOk)

lemma initState_boxOk: "boxOk (initState ents)"
  by (simp add: initState_def boxOk_def applySelection_def)

lemma worldSelectionBox_ordered:
  assumes "0 \<le> box_width b" and "0 \<le> box_height b" and "0 < sc"
  shows "jle (wminX (worldSelectionBox b \<lparr>px = Fin pnx, py = Fin pny\<rparr> (Fin sc)))
             (wmaxX (worldSelectionBox b \<lparr>px = Fin pnx, py = Fin pny\<rparr> (Fin sc)))
       \<and> jle (wminY (worldSelectionBox b \<lparr>px = Fin pnx, py = Fin pny\<rparr> (Fin sc)))
             (wmaxY (worldSelectionBox b \<lparr>px = Fin pnx, py = Fin pny\<rparr> (Fin sc)))"
  using assms by (simp add: worldSelectionBox_def divide_le_cancel)

text \<open>
  In every state that the viewer reaches the selection box in progress has a width and
  a height that are not negative, and for every finite scale \<open>> 0\<close> and every finite pan
  the world rectangle that pointer-up derives from it has \<open>minX \<le> maxX\<close> and
  \<open>minY \<le> maxY\<close>.
\<close>

lemma selection_box_ordered_finite_view:
  assumes "selectionBox (run (initState ents) evs) = Some b" and "0 < sc"
  shows "0 \<le> box_width b \<and> 0 \<le> box_height b
       \<and> jle (wminX (worldSelectionBox b \<lparr>px = Fin pnx, py = Fin pny\<rparr> (Fin sc)))
             (wmaxX (worldSelectionBox b \<lparr>px = Fin pnx, py = Fin pny\<rparr> (Fin sc)))
       \<and> jle (wminY (worldSelectionBox b \<lparr>px = Fin pnx, py = Fin pny\<rparr> (Fin sc)))
             (wmaxY (worldSelectionBox b \<lparr>px = Fin pnx, py = Fin pny\<rparr> (Fin sc)))"
proof -
  have "boxOk (run (initState ents) evs)"
    by (rule run_boxOk [OF initState_boxOk])
  with assms(1) have "0 \<le> box_width b" "0 \<le> box_height b"
    by (simp_all add: boxOk_def)
  with worldSelectionBox_ordered [OF this assms(2)] show ?thesis by simp
qed

text \<open>
  C10. The claim asks that for every box selection at a scale \<open>> 0\<close> the world rectangle
  derived on pointer-up has \<open>minX \<le> maxX\<close> and \<open>minY \<le> maxY\<close>. With the single label of
  scenario B in the store and a viewport of 800 by 600 the code does not: the fit effect
  sets the scale to \<^verbatim>\<open>Infinity\<close>, which is \<open>> 0\<close>, and the pan to \<^verbatim>\<open>NaN\<close>; a press at
  \<open>(50, 50)\<close> finds nothing under the pointer and starts a box, a move to \<open>(20, 30)\<close> gives
  the box \<open>(20, 30, 30, 20)\<close> of width and height that are not negative, and all four
  sides of its world rectangle are \<^verbatim>\<open>NaN\<close>, so that neither comparison holds.
\<close>

theorem selection_box_unordered_after_fit:
  "fitEvents [exampleText] 800 600 = [SetView PosInf \<lparr>px = NaN, py = NaN\<rparr>]
   \<and> jlt (Fin 0) (scale (run (initState [exampleText])
         (fitEvents [exampleText] 800 600 @ [MouseDown pressEvent, MouseMove moveEvent])))
   \<and> pan (run (initState [exampleText])
         (fitEvents [exampleText] 800 600 @ [MouseDown pressEvent, MouseMove moveEvent]))
       = \<lparr>px = NaN, py = NaN\<rparr>
   \<and> selectionBox (run (initState [exampleText])
         (fitEvents [exampleText] 800 600 @ [MouseDown pressEvent, MouseMove moveEvent]))
       = Some \<lparr>box_x = 20, box_y = 30, box_width = 30, box_height = 20\<rparr>
   \<and> worldSelectionBox \<lparr>box_x = 20, box_y = 30, box_width = 30, box_height = 20\<rparr>
         \<lparr>px = NaN, py = NaN\<rparr> PosInf
       = \<lparr>wminX = NaN, wminY = NaN, wmaxX = NaN, wmaxY = NaN\<rparr>
   \<and> \<not> jle (wminX (worldSelectionBox \<lparr>box_x = 20, box_y = 30, box_width = 30, box_height = 20\<rparr>
                \<lparr>px = NaN, py = NaN\<rparr> PosInf))
             (wmaxX (worldSelectionBox \<lparr>box_x = 20, box_y = 30, box_width = 30, box_height = 20\<rparr>
                \<lparr>px = NaN, py = NaN\<rparr> PosInf))
   \<and> \<not> jle (wminY (worldSelectionBox \<lparr>box_x = 20, box_y = 30, box_width = 30, box_height = 20\<rparr>
                \<lparr>px = NaN, py = NaN\<rparr> PosInf))
             (wmaxY (worldSelectionBox \<lparr>box_x = 20, box_y = 30, box_width = 30, box_height = 20\<rparr>
                \<lparr>px = NaN, py = NaN\<rparr> PosInf))"
proof -
  have fit: "fitEvents [exampleText] 800 600 = [SetView PosInf \<lparr>px = NaN, py = NaN\<rparr>]"
    by (simp add: fitEvents_def fitTransform_def calculateBounds_def boundsStep_def
        exampleText_def Math_min_def Math_max_def jsub_def infOfSign_def Let_def)
  show ?thesis
    unfolding fit
    by (simp add: run_def step_def initState_def applySelection_def handleMouseDown_def
        handleMouseMove_def findEntityAtPosition_def screenToWorld_def textHit_def textOr_def
        worldSelectionBox_def exampleText_def pressEvent_def moveEvent_def jsub_def jge_def
        infOfSign_def Let_def)
qed

section \<open>The hit test of a line\<close>

lemma sqDist_diff:
  "sqDist A B C D u - sqDist A B C D t
     = (u - t) * ((u + t) * (C * C + D * D) - 2 * (A * C + B * D))"
  by (simp add: sqDist_def algebra_simps)

lemma lenSq_nonneg: "0 \<le> C * C + D * (D::real)"
  by simp

lemma sqDist_min_inside:
  assumes "C * C + D * D \<noteq> 0" and "t = (A * C + B * D) / (C * C + D * D)"
  shows "sqDist A B C D t \<le> sqDist A B C D u"
proof -
  have e: "A * C + B * D = t * (C * C + D * D)" using assms by simp
  have "sqDist A B C D u - sqDist A B C D t = (u - t) * ((u + t) * (C * C + D * D) - 2 * (t * (C * C + D * D)))"
    unfolding sqDist_diff e ..
  also have "\<dots> = (C * C + D * D) * ((u - t) * (u - t))" by (simp add: algebra_simps)
  also have "\<dots> \<ge> 0" using lenSq_nonneg [of C D] by (rule mult_nonneg_nonneg) simp
  finally show ?thesis by simp
qed

lemma sqDist_min_start:
  assumes "A * C + B * D \<le> 0" and "0 \<le> u"
  shows "sqDist A B C D 0 \<le> sqDist A B C D u"
proof -
  define L where "L = C * C + D * D"
  define d where "d = A * C + B * D"
  have "0 \<le> L" unfolding L_def by simp
  then have "0 \<le> u * L" using assms(2) by simp
  moreover have "d \<le> 0" using assms(1) unfolding d_def .
  ultimately have "0 \<le> u * L - 2 * d" by linarith
  then have "0 \<le> u * (u * L - 2 * d)"
    using assms(2) by simp
  then show ?thesis using sqDist_diff [of A B C D u 0] unfolding L_def d_def by simp
qed

lemma sqDist_min_end:
  assumes "C * C + D * D \<le> A * C + B * D" and "u \<le> 1"
  shows "sqDist A B C D 1 \<le> sqDist A B C D u"
proof -
  define L where "L = C * C + D * D"
  define d where "d = A * C + B * D"
  have L: "0 \<le> L" unfolding L_def by simp
  have Ld: "L \<le> d" using assms(1) unfolding L_def d_def .
  have "(u + 1) * L \<le> 2 * L"
    using assms(2) L by (intro mult_right_mono) simp_all
  then have "(u + 1) * L - 2 * d \<le> 0" using Ld by linarith
  with assms(2) have "0 \<le> (u - 1) * ((u + 1) * L - 2 * d)"
    by (intro mult_nonpos_nonpos) simp_all
  then show ?thesis using sqDist_diff [of A B C D u 1] unfolding L_def d_def by simp
qed

lemma pdist_segPoint:
  "pdist p (segPoint a b t) = sqrt (sqDist (fst p - fst a) (snd p - snd a) (fst b - fst a) (snd b - snd a) t)"
  by (simp add: pdist_def segPoint_def sqDist_def algebra_simps)

lemma sqDist_nonneg: "0 \<le> sqDist A B C D t"
  by (simp add: sqDist_def)

lemma isPointNearLine_closest:
  "isPointNearLine (finPoint p) (finPoint a) (finPoint b) (Fin tol) =
     (pdist p (segPoint a b
        (closestParam (fst p - fst a) (snd p - snd a) (fst b - fst a) (snd b - snd a))) < tol)"
proof -
  define A B C D where "A = fst p - fst a" and "B = snd p - snd a"
    and "C = fst b - fst a" and "D = snd b - snd a"
  define L where "L = C * C + D * D"
  define dot where "dot = A * C + B * D"
  define t where "t = closestParam A B C D"
  define xx yy where "xx = fst a + t * C" and "yy = snd a + t * D"
  have ends: "fst a + C = fst b" "snd a + D = snd b"
    by (simp_all add: C_def D_def)
  have xy: "(if jlt (if Fin L \<noteq> Fin 0 then jdiv (Fin dot) (Fin L) else Fin (- 1)) (Fin 0)
             then Fin (fst a)
             else if jgt (if Fin L \<noteq> Fin 0 then jdiv (Fin dot) (Fin L) else Fin (- 1)) (Fin 1)
                  then Fin (fst b)
                  else jadd (Fin (fst a))
                         (jmul (if Fin L \<noteq> Fin 0 then jdiv (Fin dot) (Fin L) else Fin (- 1)) (Fin C)))
            = Fin xx"
    "(if jlt (if Fin L \<noteq> Fin 0 then jdiv (Fin dot) (Fin L) else Fin (- 1)) (Fin 0)
             then Fin (snd a)
             else if jgt (if Fin L \<noteq> Fin 0 then jdiv (Fin dot) (Fin L) else Fin (- 1)) (Fin 1)
                  then Fin (snd b)
                  else jadd (Fin (snd a))
                         (jmul (if Fin L \<noteq> Fin 0 then jdiv (Fin dot) (Fin L) else Fin (- 1)) (Fin D)))
            = Fin yy"
    using ends by (simp_all add: xx_def yy_def t_def closestParam_def L_def dot_def Let_def)
  have sq: "Math_sqrt (Fin ((fst p - xx) * (fst p - xx) + (snd p - yy) * (snd p - yy)))
            = Fin (sqrt ((fst p - xx) * (fst p - xx) + (snd p - yy) * (snd p - yy)))"
    by (simp add: not_less)
  have "isPointNearLine (finPoint p) (finPoint a) (finPoint b) (Fin tol) =
      jlt (Math_sqrt (jadd (jmul (jsub (Fin (fst p)) (Fin xx)) (jsub (Fin (fst p)) (Fin xx)))
                           (jmul (jsub (Fin (snd p)) (Fin yy)) (jsub (Fin (snd p)) (Fin yy)))))
          (Fin tol)"
    unfolding isPointNearLine_def finPoint_def Let_def point.simps jsub_Fin jmul.simps jadd.simps
      A_def [symmetric] B_def [symmetric] C_def [symmetric] D_def [symmetric]
      L_def [symmetric] dot_def [symmetric] xy ..
  also have "\<dots> = (sqrt ((fst p - xx) * (fst p - xx) + (snd p - yy) * (snd p - yy)) < tol)"
    unfolding jsub_Fin jmul.simps jadd.simps sq by simp
  also have "\<dots> = (pdist p (segPoint a b t) < tol)"
    by (simp add: pdist_def segPoint_def xx_def yy_def C_def D_def)
  finally show ?thesis
    unfolding t_def A_def B_def C_def D_def .
qed

lemma closestParam_range: "0 \<le> closestParam A B C D \<and> closestParam A B C D \<le> 1"
  by (simp add: closestParam_def Let_def)

lemma closestParam_min:
  assumes "0 \<le> u" and "u \<le> 1"
  shows "sqDist A B C D (closestParam A B C D) \<le> sqDist A B C D u"
proof (cases "C * C + D * D = 0")
  case True
  then have "C = 0" "D = 0" by (simp_all add: sum_squares_eq_zero_iff [unfolded power2_eq_square])
  then show ?thesis by (simp add: closestParam_def sqDist_def)
next
  case False
  have L: "0 < C * C + D * D"
    using False lenSq_nonneg [of C D] by linarith
  let ?t = "(A * C + B * D) / (C * C + D * D)"
  consider "?t < 0" | "?t > 1" | "0 \<le> ?t \<and> ?t \<le> 1" by linarith
  then show ?thesis
  proof cases
    case 1
    then have "A * C + B * D \<le> 0" using L by (simp add: divide_less_0_iff)
    then show ?thesis using 1 False assms(1) sqDist_min_start by (simp add: closestParam_def)
  next
    case 2
    then have "C * C + D * D \<le> A * C + B * D" using L by (simp add: pos_less_divide_eq)
    then show ?thesis using 2 False assms(2) sqDist_min_end by (simp add: closestParam_def)
  next
    case 3
    then show ?thesis using False sqDist_min_inside [OF False refl] by (simp add: closestParam_def)
  qed
qed

lemma nearest_is_closest:
  assumes "0 \<le> u" and "u \<le> 1"
  shows "pdist p (segPoint a b (closestParam (fst p - fst a) (snd p - snd a) (fst b - fst a) (snd b - snd a)))
           \<le> pdist p (segPoint a b u)"
  unfolding pdist_segPoint using closestParam_min [OF assms] by simp

lemma midpoint_closest:
  "pdist (segMidpoint a b) (segPoint a b
     (closestParam (fst (segMidpoint a b) - fst a) (snd (segMidpoint a b) - snd a)
        (fst b - fst a) (snd b - snd a))) = 0"
proof -
  have "pdist (segMidpoint a b) (segPoint a b (1/2)) = 0"
    by (simp add: pdist_def segPoint_def segMidpoint_def field_simps)
  moreover have "0 \<le> pdist p q" for p q by (simp add: pdist_def)
  ultimately show ?thesis
    using nearest_is_closest [of "1/2" "segMidpoint a b" a b]
    by (simp add: order_antisym)
qed

text \<open>
  C2, as amended. For every segment from \<open>a\<close> to \<open>b\<close> and every point, all finite: the
  midpoint is a hit exactly when the tolerance is \<open>> 0\<close>, the comparison with the
  tolerance being strict; a point whose distance from every point of the segment is at
  least the tolerance, so also a point at distance tolerance \<open>+ \<epsilon>\<close> from the nearest
  one, is not a hit; and a point closer than the tolerance to some point of the segment
  is a hit.
\<close>

theorem isPointNearLine_boundary:
  "isPointNearLine (finPoint (segMidpoint a b)) (finPoint a) (finPoint b) (Fin tol) = (0 < tol)
   \<and> ((\<forall>u. 0 \<le> u \<and> u \<le> 1 \<longrightarrow> tol \<le> pdist p (segPoint a b u))
        \<longrightarrow> \<not> isPointNearLine (finPoint p) (finPoint a) (finPoint b) (Fin tol))
   \<and> (0 \<le> t \<and> t \<le> 1 \<and> pdist p (segPoint a b t) < tol
        \<longrightarrow> isPointNearLine (finPoint p) (finPoint a) (finPoint b) (Fin tol))"
proof (intro conjI impI)
  show "isPointNearLine (finPoint (segMidpoint a b)) (finPoint a) (finPoint b) (Fin tol) = (0 < tol)"
    unfolding isPointNearLine_closest midpoint_closest ..
next
  assume "\<forall>u. 0 \<le> u \<and> u \<le> 1 \<longrightarrow> tol \<le> pdist p (segPoint a b u)"
  then show "\<not> isPointNearLine (finPoint p) (finPoint a) (finPoint b) (Fin tol)"
    unfolding isPointNearLine_closest using closestParam_range by (simp add: not_less)
next
  assume "0 \<le> t \<and> t \<le> 1 \<and> pdist p (segPoint a b t) < tol"
  then show "isPointNearLine (finPoint p) (finPoint a) (finPoint b) (Fin tol)"
    unfolding isPointNearLine_closest using nearest_is_closest [of t p a b] by linarith
qed

theorem isPointNearLine_boundary_witness:
  "isPointNearLine (finPoint (segMidpoint segStart segEnd)) (finPoint segStart) (finPoint segEnd) (Fin 1)
   \<and> \<not> isPointNearLine (finPoint hitPoint) (finPoint segStart) (finPoint segEnd) (Fin 2)
   \<and> isPointNearLine (finPoint hitPoint) (finPoint segStart) (finPoint segEnd) (Fin 4)"
proof -
  have far: "\<forall>u. 0 \<le> u \<and> u \<le> 1 \<longrightarrow> 2 \<le> pdist hitPoint (segPoint segStart segEnd u)"
  proof (intro allI impI)
    fix u :: real
    have "0 \<le> (5 - u * 10) * (5 - u * 10)" by simp
    then have "2\<^sup>2 \<le> (5 - u * 10) * (5 - u * 10) + 3 * 3" by simp
    then have "2 \<le> sqrt ((5 - u * 10) * (5 - u * 10) + 3 * 3)" by (rule real_le_rsqrt)
    then show "2 \<le> pdist hitPoint (segPoint segStart segEnd u)"
      by (simp add: pdist_def segPoint_def hitPoint_def segStart_def segEnd_def)
  qed
  have "sqrt 9 = (3::real)" using real_sqrt_mult_self [of 3] by simp
  then have near: "0 \<le> (1/2::real) \<and> (1/2::real) \<le> 1
      \<and> pdist hitPoint (segPoint segStart segEnd (1/2)) < 4"
    by (simp add: pdist_def segPoint_def hitPoint_def segStart_def segEnd_def)
  show ?thesis
    using isPointNearLine_boundary [of segStart segEnd 1 hitPoint "1/2"]
      isPointNearLine_boundary [of segStart segEnd 2 hitPoint "1/2"]
      isPointNearLine_boundary [of segStart segEnd 4 hitPoint "1/2"] far near
    by simp
qed

text \<open>
  The claim as it is written fails at tolerance \<open>0\<close>: the midpoint \<open>(5, 0)\<close> of the
  segment from \<open>(0, 0)\<close> to \<open>(10, 0)\<close> is not a hit.
\<close>

theorem isPointNearLine_midpoint_counterexample:
  "\<not> isPointNearLine \<lparr>px = Fin 5, py = Fin 0\<rparr> \<lparr>px = Fin 0, py = Fin 0\<rparr>
        \<lparr>px = Fin 10, py = Fin 0\<rparr> (Fin 0)
   \<and> \<lparr>px = Fin 5, py = Fin 0\<rparr> = finPoint (segMidpoint (0, 0) (10, 0))"
  by (simp add: isPointNearLine_def segMidpoint_def finPoint_def)

section \<open>The hit test of a text label\<close>

text \<open>
  What the test of a text label is on finite numbers, at a scale other than \<open>0\<close>: the
  box reaches from \<open>2 / scale\<close> left of the anchor to \<open>2 / scale\<close> right of the estimated
  width, and from \<open>14 / scale\<close> below the anchor to \<open>2 / scale\<close> above it.
\<close>

lemma textHit_finite:
  assumes "sc \<noteq> 0"
  shows "textHit \<lparr>px = Fin wx, py = Fin wy\<rparr> (Fin sc) (Fin ax) (Fin ay) txt =
           (ax - 2 / sc \<le> wx \<and> wx \<le> ax + real (length txt) * 8 / sc + 2 / sc \<and>
            ay - 14 / sc \<le> wy \<and> wy \<le> ay + 2 / sc)"
  using assms by (simp add: textHit_def Let_def)

lemma findEntityAtPosition_single_text:
  assumes "entities s = [entity]" and "etype entity = ''TEXT''" and "position entity = Some anchor"
  shows "findEntityAtPosition s x y =
           (if textHit (screenToWorld (pan s) (scale s) (Fin x) (Fin y)) (scale s)
                 (or0 (px anchor)) (or0 (py anchor)) (textOr (etext entity))
            then Inr (Some (eid entity)) else Inr None)"
  using assms by (simp add: findEntityAtPosition_def Let_def)

text \<open>
  C5. The claim asks that a text label is hit exactly in the box that extends from its anchor
  rightward by the estimated width and upward, toward larger world \<open>Y\<close>, by the label
  height. On the label \<open>AB\<close> of scenario B the code does not: the world point \<open>(5, 7)\<close>,
  inside that box and on the label as \<^verbatim>\<open>drawText\<close> draws it, is not a hit, and the world
  point \<open>(5, -10)\<close>, below the label and outside that box, is a hit.
\<close>

theorem text_hit_extends_downward:
  "screenToWorld (pan textState) (scale textState) (Fin 105) (Fin 93) = \<lparr>px = Fin 5, py = Fin 7\<rparr>
   \<and> specTextBox 5 7 1 0 0 ''AB''
   \<and> findEntityAtPosition textState 105 93 = Inr None
   \<and> screenToWorld (pan textState) (scale textState) (Fin 105) (Fin 110)
       = \<lparr>px = Fin 5, py = Fin (- 10)\<rparr>
   \<and> \<not> specTextBox 5 (- 10) 1 0 0 ''AB''
   \<and> findEntityAtPosition textState 105 110 = Inr (Some ''t'')"
  by (simp add: findEntityAtPosition_def textState_def exampleText_def screenToWorld_def
      specTextBox_def textHit_def textOr_def Let_def)

section \<open>Ids after ingestion\<close>

lemma eid_withId: "eid (withId i entity) = i"
  by (simp add: withId_def)

lemma ingestFrom_ids_subset:
  "set (map eid (ingestFrom gen k raw)) \<subseteq> set (presentIds raw) \<union> gen ` {k ..< k + lackCount raw}"
proof (induction raw arbitrary: k)
  case Nil
  then show ?case by simp
next
  case (Cons entity rest)
  show ?case
  proof (cases "lacksId entity")
    case True
    have "gen ` {Suc k ..< Suc k + lackCount rest} \<subseteq> gen ` {k ..< k + Suc (lackCount rest)}"
      by (intro image_mono) auto
    then show ?thesis
      using True Cons.IH [of "Suc k"] by (auto simp: eid_withId presentIds_def lackCount_def)
  next
    case False
    then obtain i where "eid entity = Some i" by (auto simp: lacksId_def split: option.splits)
    then show ?thesis
      using False Cons.IH [of k] by (auto simp: eid_withId presentIds_def lackCount_def)
  qed
qed

lemma ingestFrom_distinct:
  assumes "distinct (presentIds raw)"
    and "distinct (map gen [k ..< k + lackCount raw])"
    and "set (map gen [k ..< k + lackCount raw]) \<inter> set (presentIds raw) = {}"
  shows "distinct (map eid (ingestFrom gen k raw))"
  using assms
proof (induction raw arbitrary: k)
  case Nil
  then show ?case by simp
next
  case (Cons entity rest)
  show ?case
  proof (cases "lacksId entity")
    case True
    have lc: "lackCount (entity # rest) = Suc (lackCount rest)"
      using True by (simp add: lackCount_def)
    have up: "[k ..< k + lackCount (entity # rest)] = k # [Suc k ..< Suc k + lackCount rest]"
      unfolding lc using upt_conv_Cons [of k "k + Suc (lackCount rest)"] by simp
    have pres: "presentIds (entity # rest) = presentIds rest"
      using True by (simp add: presentIds_def)
    have fresh: "gen k \<notin> gen ` {Suc k ..< Suc k + lackCount rest}" "gen k \<notin> set (presentIds rest)"
      and d: "distinct (map gen [Suc k ..< Suc k + lackCount rest])"
      and disj: "set (map gen [Suc k ..< Suc k + lackCount rest]) \<inter> set (presentIds rest) = {}"
      using Cons.prems unfolding up pres by auto
    have "distinct (map eid (ingestFrom gen (Suc k) rest))"
      using Cons.IH [of "Suc k"] Cons.prems(1) d disj unfolding pres by simp
    moreover have "gen k \<notin> set (map eid (ingestFrom gen (Suc k) rest))"
      using ingestFrom_ids_subset [of gen "Suc k" rest] fresh by blast
    ultimately show ?thesis using True by (simp add: eid_withId)
  next
    case False
    then obtain i where i: "eid entity = Some i" by (auto simp: lacksId_def split: option.splits)
    have pres: "presentIds (entity # rest) = i # presentIds rest"
      using False i by (simp add: presentIds_def)
    have lack: "lackCount (entity # rest) = lackCount rest"
      using False by (simp add: lackCount_def)
    have fresh: "i \<notin> gen ` {k ..< k + lackCount rest}" "i \<notin> set (presentIds rest)"
      and d: "distinct (presentIds rest)" "distinct (map gen [k ..< k + lackCount rest])"
      and disj: "set (map gen [k ..< k + lackCount rest]) \<inter> set (presentIds rest) = {}"
      using Cons.prems unfolding pres lack by auto
    have "distinct (map eid (ingestFrom gen k rest))"
      using Cons.IH [of k] d disj by simp
    moreover have "i \<notin> set (map eid (ingestFrom gen k rest))"
      using ingestFrom_ids_subset [of gen k rest] fresh by blast
    ultimately show ?thesis using False i by (simp add: eid_withId)
  qed
qed

text \<open>
  When the ids present in the raw list are pairwise distinct and the generated ids are
  pairwise distinct and differ from every id present, the ids of the store are pairwise
  distinct. Ingestion itself does nothing to make the generated ids so.
\<close>

lemma ingest_ids_distinct_when_fresh:
  assumes "distinct (presentIds raw)"
    and "distinct (map gen [0 ..< lackCount raw])"
    and "set (map gen [0 ..< lackCount raw]) \<inter> set (presentIds raw) = {}"
  shows "distinct (map eid (ingest gen raw))"
  unfolding ingest_def using ingestFrom_distinct [of raw gen 0] assms by simp


text \<open>Ingestion keeps the ids that are present, also when two entities carry the same.\<close>

lemma ingest_keeps_duplicate_ids:
  "map eid (ingest (genOf [''x'', ''y'']) [rawEntity (Some ''a''), rawEntity (Some ''a'')])
     = [''a'', ''a'']"
  by (simp add: ingest_def rawEntity_def lacksId_def withId_def)

text \<open>
  C6. The claim asks that after ingestion the ids of the store are pairwise distinct. On two
  entities without id the code does not make them so when two calls of \<^verbatim>\<open>generateId\<close>
  return the same string: no id is present in the raw list, both entities get that
  string, and the ids of the store are not distinct.
\<close>

theorem ingest_generated_ids_collide:
  "presentIds [rawEntity None, rawEntity None] = []
   \<and> map eid (ingest (genOf [''k3j9x2a'', ''k3j9x2a'']) [rawEntity None, rawEntity None])
       = [''k3j9x2a'', ''k3j9x2a'']
   \<and> \<not> distinct (map eid (ingest (genOf [''k3j9x2a'', ''k3j9x2a''])
          [rawEntity None, rawEntity None]))"
  by (simp add: ingest_def rawEntity_def lacksId_def withId_def genOf_def presentIds_def)

section \<open>Ingesting twice\<close>

lemma ingestFrom_asRaw:
  assumes "\<forall>entity \<in> set ents. eid entity \<noteq> []"
  shows "ingestFrom gen k (map asRaw ents) = ents"
  using assms by (induction ents) (simp_all add: lacksId_def asRaw_def withId_def)

lemma ingestFrom_nonempty:
  assumes "\<forall>j. k \<le> j \<and> j < k + lackCount raw \<longrightarrow> gen j \<noteq> []"
  shows "\<forall>entity \<in> set (ingestFrom gen k raw). eid entity \<noteq> []"
  using assms
proof (induction raw arbitrary: k)
  case Nil
  then show ?case by simp
next
  case (Cons entity rest)
  show ?case
  proof (cases "lacksId entity")
    case True
    then have "gen k \<noteq> []" "\<forall>j. Suc k \<le> j \<and> j < Suc k + lackCount rest \<longrightarrow> gen j \<noteq> []"
      using Cons.prems by (auto simp: lackCount_def)
    then show ?thesis using True Cons.IH [of "Suc k"] by (simp add: eid_withId)
  next
    case False
    then obtain i where i: "eid entity = Some i" "i \<noteq> []"
      by (auto simp: lacksId_def split: option.splits)
    have "\<forall>j. k \<le> j \<and> j < k + lackCount rest \<longrightarrow> gen j \<noteq> []"
      using Cons.prems False by (auto simp: lackCount_def)
    then show ?thesis using False i Cons.IH [of k] by (simp add: eid_withId)
  qed
qed

text \<open>
  When no generated id is the empty string, ingesting the output a second time, with any
  generator, returns the same list with the same ids.
\<close>

lemma ingest_idempotent_when_nonempty:
  assumes "\<forall>j < lackCount raw. gen j \<noteq> []"
  shows "ingest gen' (map asRaw (ingest gen raw)) = ingest gen raw"
  unfolding ingest_def
  using ingestFrom_asRaw [OF ingestFrom_nonempty [of 0 raw gen]] assms by simp


text \<open>
  C7. The claim asks that a second ingestion of the output changes no id. The code does
  change one when \<^verbatim>\<open>generateId\<close> returns the empty string, as it does when
  \<^verbatim>\<open>Math.random()\<close> returns \<open>0\<close>: the entity without id gets the id \<open>''\<close>, the test
  \<^verbatim>\<open>!entity.id\<close> of the second ingestion takes it for an entity without id, and it gets
  another id.
\<close>

theorem ingest_twice_regenerates_empty_id:
  "map eid (ingest (genOf [[]]) [rawEntity None]) = [[]]
   \<and> map eid (ingest (genOf [''z'']) (map asRaw (ingest (genOf [[]]) [rawEntity None]))) = [''z'']
   \<and> ingest (genOf [''z'']) (map asRaw (ingest (genOf [[]]) [rawEntity None]))
       \<noteq> ingest (genOf [[]]) [rawEntity None]"
  by (simp add: ingest_def rawEntity_def lacksId_def withId_def asRaw_def genOf_def)

section \<open>The fit transform on degenerate bounds\<close>

text \<open>
  C1. The claim asks that the fit transform never divides by zero and yields a finite, strictly
  positive scale for every entity list, a single text entity included. On the single
  label of scenario B the code does not: all four bounds are the anchor, the padding is
  \<open>0\<close>, both extents are \<open>0\<close>, and \<open>800 / 0\<close> and \<open>600 / 0\<close> give the scale \<^verbatim>\<open>Infinity\<close> and
  the pan \<^verbatim>\<open>NaN\<close>.
\<close>

theorem fitTransform_single_text:
  "calculateBounds [exampleText] = Inr \<lparr>minX = Fin 0, minY = Fin 0, maxX = Fin 0, maxY = Fin 0\<rparr>
   \<and> fitTransform [exampleText] 800 600
       = Inr (Some \<lparr>newScale = PosInf, centerX = NaN, centerY = NaN\<rparr>)"
  by (simp add: fitTransform_def calculateBounds_def boundsStep_def exampleText_def
      Math_min_def Math_max_def jsub_def infOfSign_def Let_def)

text \<open>
  On padded bounds of positive width and height the scale is finite and positive, as
  for the line of scenario C in a viewport of 800 by 600.
\<close>

lemma fitTransform_finite_positive:
  assumes "ents \<noteq> []"
    and "calculateBounds ents = Inr \<lparr>minX = Fin a, minY = Fin c, maxX = Fin b, maxY = Fin d\<rparr>"
    and "a < b" and "c < d" and "0 < width" and "0 < height"
  shows "\<exists>cx cy. fitTransform ents width height
           = Inr (Some \<lparr>newScale = Fin (min (width / (b - a)) (height / (d - c)) * 0.9),
                         centerX = Fin cx, centerY = Fin cy\<rparr>)
       \<and> 0 < min (width / (b - a)) (height / (d - c)) * 0.9"
  using assms
  by (simp add: fitTransform_def Math_min_def jsub_def Let_def)

lemma fitTransform_exampleLine:
  "fitTransform [exampleLine] 800 600
     = Inr (Some \<lparr>newScale = Fin 60, centerX = Fin 100, centerY = Fin 300\<rparr>)"
  by (simp add: fitTransform_def calculateBounds_def boundsStep_def exampleLine_def
      Math_min_def Math_max_def jsub_def infOfSign_def Let_def)

text \<open>
  A list without any line or text, here one entity of another type, keeps the bounds at
  the infinities; the scale is \<open>0\<close> and the pan is \<^verbatim>\<open>NaN\<close>.
\<close>

lemma fitTransform_no_points:
  "fitTransform [exampleLine\<lparr>etype := ''CIRCLE''\<rparr>] 800 600
     = Inr (Some \<lparr>newScale = Fin 0, centerX = NaN, centerY = NaN\<rparr>)"
  by (simp add: fitTransform_def calculateBounds_def boundsStep_def exampleLine_def
      Math_min_def Math_max_def jsub_def infOfSign_def Let_def)

lemma lineEnds_Some: "2 \<le> length vs \<Longrightarrow> \<exists>p1 p2. lineEnds vs = Some (p1, p2)"
  by (cases vs; cases "tl vs") auto

lemma jle_Fin_left_mono: "jle (Fin a) v \<Longrightarrow> a' \<le> a \<Longrightarrow> jle (Fin a') v"
  by (cases v) auto

lemma jle_Fin_right_mono: "jle v (Fin b) \<Longrightarrow> b \<le> b' \<Longrightarrow> jle v (Fin b')"
  by (cases v) auto

lemma jmin_Fin2: "jmin (jmin m (Fin a)) (Fin b) = jmin m (Fin (min a b))"
  by (cases m) (simp_all add: min.assoc)

lemma jmax_Fin2: "jmax (jmax m (Fin a)) (Fin b) = jmax m (Fin (max a b))"
  by (cases m) (simp_all add: max.assoc)

lemma encloses_add:
  assumes "encloses b ps"
  shows "encloses \<lparr>minX = jmin (minX b) (Fin x), minY = jmin (minY b) (Fin y),
                   maxX = jmax (maxX b) (Fin x), maxY = jmax (maxY b) (Fin y)\<rparr>
           (ps @ [\<lparr>px = Fin x, py = Fin y\<rparr>])"
proof (cases "ps = []")
  case True
  then show ?thesis using assms by (simp add: encloses_def)
next
  case False
  then obtain x0 y0 x1 y1 where b: "b = \<lparr>minX = Fin x0, minY = Fin y0, maxX = Fin x1, maxY = Fin y1\<rparr>"
    and e: "\<forall>p \<in> set ps. jle (Fin x0) (px p) \<and> jle (px p) (Fin x1) \<and>
                          jle (Fin y0) (py p) \<and> jle (py p) (Fin y1)"
    using assms by (auto simp: encloses_def)
  have "jle (Fin (min x0 x)) (px p) \<and> jle (px p) (Fin (max x1 x)) \<and>
        jle (Fin (min y0 y)) (py p) \<and> jle (py p) (Fin (max y1 y))" if "p \<in> set ps" for p
    using e that
    by (meson jle_Fin_left_mono jle_Fin_right_mono min.cobounded1 max.cobounded1)
  then show ?thesis
    unfolding b encloses_def by simp
qed

lemma point_eqI: "px p = x \<Longrightarrow> py p = y \<Longrightarrow> p = \<lparr>px = x, py = y\<rparr>"
  by (cases p) simp

lemma boundsStep_encloses:
  assumes "encloses b ps" and "lineOk entity"
    and "\<forall>q \<in> set (boundsPoints entity). finitePoint q"
  shows "\<exists>b'. boundsStep entity b = Inr b' \<and> encloses b' (ps @ boundsPoints entity)"
proof -
  consider (isLine) vs where "etype entity = ''LINE''" "vertices entity = Some vs"
    | (isText) p where "(if etype entity = ''LINE'' then vertices entity else None) = None"
        "etype entity = ''TEXT''" "position entity = Some p"
    | (neither) "(if etype entity = ''LINE'' then vertices entity else None) = None"
        "(if etype entity = ''TEXT'' then position entity else None) = None"
    by (cases "etype entity = ''LINE''"; cases "etype entity = ''TEXT''";
        cases "vertices entity"; cases "position entity") auto
  then show ?thesis
  proof cases
    case isLine
    then have "2 \<le> length vs" using assms(2) by (simp add: lineOk_def)
    then obtain p1 p2 where ends: "lineEnds vs = Some (p1, p2)" using lineEnds_Some by blast
    have pts: "boundsPoints entity = [p1, p2]" using isLine ends by (simp add: boundsPoints_def)
    obtain x1 y1 x2 y2 where fin: "px p1 = Fin x1" "py p1 = Fin y1" "px p2 = Fin x2" "py p2 = Fin y2"
      using assms(3) unfolding pts by (auto simp: finitePoint_def)
    have p12: "p1 = \<lparr>px = Fin x1, py = Fin y1\<rparr>" "p2 = \<lparr>px = Fin x2, py = Fin y2\<rparr>"
      using fin by (simp_all add: point_eqI)
    have st: "boundsStep entity b =
        Inr \<lparr>minX = jmin (jmin (minX b) (Fin x1)) (Fin x2),
             minY = jmin (jmin (minY b) (Fin y1)) (Fin y2),
             maxX = jmax (jmax (maxX b) (Fin x1)) (Fin x2),
             maxY = jmax (jmax (maxY b) (Fin y1)) (Fin y2)\<rparr>"
      using isLine ends fin
      by (simp add: boundsStep_def Math_min_def Math_max_def jmin_Fin2 jmax_Fin2)
    have "encloses \<lparr>minX = jmin (jmin (minX b) (Fin x1)) (Fin x2),
             minY = jmin (jmin (minY b) (Fin y1)) (Fin y2),
             maxX = jmax (jmax (maxX b) (Fin x1)) (Fin x2),
             maxY = jmax (jmax (maxY b) (Fin y1)) (Fin y2)\<rparr> ((ps @ [p1]) @ [p2])"
      using encloses_add [OF encloses_add [OF assms(1), of x1 y1], of x2 y2]
      unfolding p12 by simp
    then show ?thesis unfolding st pts by simp
  next
    case isText
    have pts: "boundsPoints entity = [\<lparr>px = or0 (px p), py = or0 (py p)\<rparr>]"
      using isText by (simp add: boundsPoints_def)
    obtain x1 y1 where fin: "or0 (px p) = Fin x1" "or0 (py p) = Fin y1"
      using assms(3) unfolding pts by (auto simp: finitePoint_def)
    have st: "boundsStep entity b =
        Inr \<lparr>minX = jmin (minX b) (Fin x1), minY = jmin (minY b) (Fin y1),
             maxX = jmax (maxX b) (Fin x1), maxY = jmax (maxY b) (Fin y1)\<rparr>"
      using isText fin by (cases "minX b"; cases "minY b"; cases "maxX b"; cases "maxY b")
        (simp_all add: boundsStep_def Math_min_def Math_max_def)
    show ?thesis
      unfolding st pts fin using encloses_add [OF assms(1), of x1 y1] by simp
  next
    case neither
    then show ?thesis using assms(1) by (simp add: boundsStep_def boundsPoints_def)
  qed
qed

lemma boundsLoop_encloses:
  assumes "encloses b ps" and "\<forall>entity \<in> set ents. lineOk entity"
    and "\<forall>q \<in> set (concat (map boundsPoints ents)). finitePoint q"
  shows "\<exists>b'. boundsLoop ents b = Inr b' \<and> encloses b' (ps @ concat (map boundsPoints ents))"
  using assms
proof (induction ents arbitrary: b ps)
  case Nil
  then show ?case by simp
next
  case (Cons entity rest)
  have "lineOk entity" "\<forall>q \<in> set (boundsPoints entity). finitePoint q"
    using Cons.prems by auto
  from boundsStep_encloses [OF Cons.prems(1) this]
  obtain b1 where b1: "boundsStep entity b = Inr b1" "encloses b1 (ps @ boundsPoints entity)"
    by blast
  have "\<forall>e \<in> set rest. lineOk e" "\<forall>q \<in> set (concat (map boundsPoints rest)). finitePoint q"
    using Cons.prems by auto
  from Cons.IH [OF b1(2) this] obtain b' where
    "boundsLoop rest b1 = Inr b'" "encloses b' ((ps @ boundsPoints entity) @ concat (map boundsPoints rest))"
    by auto
  then show ?case using b1(1) by simp
qed

text \<open>
  When no line lacks a vertex, the points are finite and two of them differ, the bounds
  have a positive extent, the padding is positive, and the scale is finite and positive.
\<close>

lemma fitTransform_nondegenerate:
  assumes "\<forall>entity \<in> set ents. lineOk entity"
    and "\<forall>q \<in> set (concat (map boundsPoints ents)). finitePoint q"
    and "p \<in> set (concat (map boundsPoints ents))" and "q \<in> set (concat (map boundsPoints ents))"
    and "px p \<noteq> px q \<or> py p \<noteq> py q"
    and "0 < width" and "0 < height"
  shows "\<exists>r cx cy. 0 < r \<and>
           fitTransform ents width height
             = Inr (Some \<lparr>newScale = Fin r, centerX = Fin cx, centerY = Fin cy\<rparr>)"
proof -
  let ?ps = "concat (map boundsPoints ents)"
  have ne: "ents \<noteq> []" "?ps \<noteq> []" using assms(3) by force+
  have "encloses \<lparr>minX = PosInf, minY = PosInf, maxX = NegInf, maxY = NegInf\<rparr> []"
    by (simp add: encloses_def)
  from boundsLoop_encloses [OF this assms(1,2)] obtain b' where
    loop: "boundsLoop ents \<lparr>minX = PosInf, minY = PosInf, maxX = NegInf, maxY = NegInf\<rparr> = Inr b'"
    and enc: "encloses b' ?ps" by auto
  have "\<exists>x0 y0 x1 y1. b' = \<lparr>minX = Fin x0, minY = Fin y0, maxX = Fin x1, maxY = Fin y1\<rparr> \<and>
          (\<forall>p \<in> set ?ps. jle (Fin x0) (px p) \<and> jle (px p) (Fin x1) \<and>
                          jle (Fin y0) (py p) \<and> jle (py p) (Fin y1))"
    using enc ne(2) unfolding encloses_def by (simp only: if_False)
  then obtain x0 y0 x1 y1 where b': "b' = \<lparr>minX = Fin x0, minY = Fin y0, maxX = Fin x1, maxY = Fin y1\<rparr>"
    and e: "\<forall>p \<in> set ?ps. jle (Fin x0) (px p) \<and> jle (px p) (Fin x1) \<and>
                           jle (Fin y0) (py p) \<and> jle (py p) (Fin y1)"
    by blast
  have "finitePoint p" "finitePoint q" using assms(2,3,4) by blast+
  then obtain xp yp xq yq where p: "px p = Fin xp" "py p = Fin yp"
    and q: "px q = Fin xq" "py q = Fin yq"
    unfolding finitePoint_def by blast
  have "jle (Fin x0) (px p) \<and> jle (px p) (Fin x1) \<and> jle (Fin y0) (py p) \<and> jle (py p) (Fin y1)"
    using e assms(3) by blast
  then have P: "x0 \<le> xp" "xp \<le> x1" "y0 \<le> yp" "yp \<le> y1"
    unfolding p by simp_all
  have "jle (Fin x0) (px q) \<and> jle (px q) (Fin x1) \<and> jle (Fin y0) (py q) \<and> jle (py q) (Fin y1)"
    using e assms(4) by blast
  then have Q: "x0 \<le> xq" "xq \<le> x1" "y0 \<le> yq" "yq \<le> y1"
    unfolding q by simp_all
  have ext: "0 \<le> x1 - x0" "0 \<le> y1 - y0"
    using P by linarith+
  have "xp \<noteq> xq \<or> yp \<noteq> yq" using assms(5) p q by simp
  then have ext': "0 < x1 - x0 \<or> 0 < y1 - y0"
    using P Q by linarith
  define pad where "pad = max (x1 - x0) (y1 - y0) * 0.1"
  have pad: "0 < pad" using ext ext' unfolding pad_def by auto
  have cb: "calculateBounds ents
      = Inr \<lparr>minX = Fin (x0 - pad), minY = Fin (y0 - pad), maxX = Fin (x1 + pad), maxY = Fin (y1 + pad)\<rparr>"
    using ne(1) loop
    by (simp add: calculateBounds_def b' Math_max_def jsub_def Let_def pad_def)
  have "x0 - pad < x1 + pad" "y0 - pad < y1 + pad" using ext pad by linarith+
  from fitTransform_finite_positive [OF ne(1) cb this assms(6,7)] show ?thesis by blast
qed

end
